theory Spec2Isabelle
  imports Main "HOL-Library.Sublist"
begin

section \<open>Python values\<close>

text \<open>
  A Python \<open>str\<close> is a sequence of Unicode code points, so text is a list of code
  points here. \<open>lit\<close> turns an ASCII literal into one. \<open>needle in hay\<close> on two
  strings is \<^const>\<open>sublist\<close>, \<open>s.startswith(p)\<close> is \<^const>\<open>prefix\<close>.
\<close>

type_synonym str = "nat list"

abbreviation (input) lit :: "string \<Rightarrow> str" where
  "lit s \<equiv> map of_char s"

text \<open>
  The exception classes the program can meet. \<open>RequestException\<close> stands for
  \<open>requests.exceptions.RequestException\<close> and carries which subclass was raised.
  \<open>JSONDecodeError\<close> is \<open>json.JSONDecodeError\<close> of the standard library;
  \<open>RequestsJSONDecodeError\<close> is \<open>requests.exceptions.JSONDecodeError\<close>, which
  derives from \<open>InvalidJSONError\<close> and so from \<open>RequestException\<close> (requests 2.27
  and later). Every class listed derives from \<open>Exception\<close>.
\<close>

datatype request_error =
  ConnectionError | Timeout | HTTPError | InvalidHeader | RequestsJSONDecodeError

datatype exn =
  FileNotFoundError | PermissionError | UnicodeDecodeError | UnicodeEncodeError
  | JSONDecodeError | RequestException request_error
  | IndexError | KeyError | AttributeError | TypeError | ValueError | RecursionError

fun is_request_exception :: "exn \<Rightarrow> bool" where
  "is_request_exception (RequestException _) = True"
| "is_request_exception _ = False"

text \<open>
  What \<open>json.load\<close> and \<open>response.json()\<close> return. An object keeps its members
  in insertion order with distinct keys, as a \<open>dict\<close> does. A float is kept as the
  literal it was read from: nothing below looks inside one.
\<close>

datatype json =
  JNull | JBool bool | JInt int | JFloat str | JStr str
  | JArr "json list" | JObj "(str \<times> json) list"

text \<open>
  Tables of the Python runtime that are not part of the repository: the full upper
  case mapping of code points beyond ASCII (\<open>str.upper\<close>), UTF-8 decoding with
  replacement of a byte string that is not plain ASCII, \<open>repr\<close> of the float a
  literal denotes, and the host name \<open>urlparse\<close> finds (or the \<open>ValueError\<close> it
  raises) when the network location has brackets or characters beyond ASCII. Every
  function below is exact on ASCII and asks the table beyond.

  Standard output is UTF-8, as in the workflow the program is written for; which
  surrogate code points \<open>print\<close> refuses depends on the error handler of
  \<open>sys.stdout\<close>, and \<open>stdout_refuses\<close> tells: all of them when it is
  \<open>strict\<close>, all but U+DC80 to U+DCFF when it is \<open>surrogateescape\<close> (as under
  the locales C and C.UTF-8).

  Two limits of the interpreter belong to the runtime as well.
  \<open>int_max_str_digits\<close> is \<open>sys.get_int_max_str_digits()\<close>: 4300 unless it was
  changed, 0 for no limit. \<open>nesting_limit\<close> is the number of arrays and objects
  that the JSON decoder can open inside the outermost one of a text before the
  recursion limit of the interpreter stops it; the decoder is called from \<open>main\<close>,
  far below that limit, so the outermost one can always be opened.
\<close>

record runtime =
  upper_ext :: "nat \<Rightarrow> str"
  utf8_replace :: "nat list \<Rightarrow> str"
  float_repr :: "str \<Rightarrow> str"
  hostname_ext :: "str \<Rightarrow> exn + str option"
  stdout_refuses :: "nat \<Rightarrow> bool"
  int_max_str_digits :: nat
  nesting_limit :: nat

definition upper_char :: "runtime \<Rightarrow> nat \<Rightarrow> str" where
  "upper_char R c =
     (if 97 \<le> c \<and> c \<le> 122 then [c - 32] else if c < 128 then [c] else upper_ext R c)"

definition upper :: "runtime \<Rightarrow> str \<Rightarrow> str" where
  "upper R s = concat (map (upper_char R) s)"

section \<open>The json module\<close>

subsection \<open>Encoding: \<open>json.dump(obj, f, indent=2)\<close>\<close>

definition hexdigit :: "nat \<Rightarrow> nat" where
  "hexdigit d = (if d < 10 then 48 + d else 87 + d)"

definition hex4 :: "nat \<Rightarrow> str" where
  "hex4 n = [hexdigit (n div 4096 mod 16), hexdigit (n div 256 mod 16),
             hexdigit (n div 16 mod 16), hexdigit (n mod 16)]"

text \<open>
  \<open>py_encode_basestring_ascii\<close> (\<open>ensure_ascii\<close> is on by default): the quote, the
  backslash and five control characters have short escapes, printable ASCII stands for
  itself, everything else becomes \<open>\uXXXX\<close>, beyond the basic plane as a surrogate
  pair.
\<close>

definition escape_char :: "nat \<Rightarrow> str" where
  "escape_char c =
     (if c = 34 then [92, 34]
      else if c = 92 then [92, 92]
      else if c = 10 then [92, 110]
      else if c = 13 then [92, 114]
      else if c = 9 then [92, 116]
      else if c = 12 then [92, 102]
      else if c = 8 then [92, 98]
      else if 32 \<le> c \<and> c \<le> 126 then [c]
      else if c < 65536 then [92, 117] @ hex4 c
      else [92, 117] @ hex4 (55296 + (c - 65536) div 1024 mod 1024)
         @ [92, 117] @ hex4 (56320 + (c - 65536) mod 1024))"

definition encode_string :: "str \<Rightarrow> str" where
  "encode_string s = [34] @ concat (map escape_char s) @ [34]"

fun digits :: "nat \<Rightarrow> str" where
  "digits n = (if n < 10 then [48 + n] else digits (n div 10) @ [48 + n mod 10])"

declare digits.simps [simp del]

definition int_repr :: "int \<Rightarrow> str" where
  "int_repr i = (if i < 0 then 45 # digits (nat (- i)) else digits (nat i))"

fun join :: "str \<Rightarrow> str list \<Rightarrow> str" where
  "join sep [] = []"
| "join sep [x] = x"
| "join sep (x # y # ys) = x @ sep @ join sep (y # ys)"

definition newline_indent :: "nat \<Rightarrow> str" where
  "newline_indent level = 10 # concat (replicate level [32, 32])"

fun iterencode :: "runtime \<Rightarrow> nat \<Rightarrow> json \<Rightarrow> str" where
  "iterencode R level JNull = lit ''null''"
| "iterencode R level (JBool b) = (if b then lit ''true'' else lit ''false'')"
| "iterencode R level (JInt i) = int_repr i"
| "iterencode R level (JFloat l) = float_repr R l"
| "iterencode R level (JStr s) = encode_string s"
| "iterencode R level (JArr vs) =
     (if vs = [] then lit ''[]''
      else [91] @ newline_indent (Suc level)
         @ join (44 # newline_indent (Suc level)) (map (iterencode R (Suc level)) vs)
         @ newline_indent level @ [93])"
| "iterencode R level (JObj kvs) =
     (if kvs = [] then lit ''{}''
      else [123] @ newline_indent (Suc level)
         @ join (44 # newline_indent (Suc level))
             (map (\<lambda>(k, v). encode_string k @ [58, 32] @ iterencode R (Suc level) v) kvs)
         @ newline_indent level @ [125])"

definition json_dumps :: "runtime \<Rightarrow> json \<Rightarrow> str" where
  "json_dumps R v = iterencode R 0 v"

subsection \<open>Decoding: \<open>json.load(f)\<close>\<close>

definition is_ws :: "nat \<Rightarrow> bool" where
  "is_ws c = (c = 32 \<or> c = 9 \<or> c = 10 \<or> c = 13)"

definition is_digit :: "nat \<Rightarrow> bool" where
  "is_digit c = (48 \<le> c \<and> c \<le> 57)"

definition hexval :: "nat \<Rightarrow> nat option" where
  "hexval c =
     (if 48 \<le> c \<and> c \<le> 57 then Some (c - 48)
      else if 97 \<le> c \<and> c \<le> 102 then Some (c - 87)
      else if 65 \<le> c \<and> c \<le> 70 then Some (c - 55)
      else None)"

text \<open>\<open>_decode_uXXXX\<close>: the four hexadecimal digits after \<open>\u\<close>.\<close>

fun decode_uXXXX :: "str \<Rightarrow> nat option" where
  "decode_uXXXX (a # b # c # d # _) =
     (case (hexval a, hexval b, hexval c, hexval d) of
        (Some x, Some y, Some z, Some w) \<Rightarrow> Some (((x * 16 + y) * 16 + z) * 16 + w)
      | _ \<Rightarrow> None)"
| "decode_uXXXX _ = None"

definition backslash :: "nat \<Rightarrow> nat option" where
  "backslash e =
     (if e = 34 then Some 34 else if e = 92 then Some 92 else if e = 47 then Some 47
      else if e = 98 then Some 8 else if e = 102 then Some 12 else if e = 110 then Some 10
      else if e = 114 then Some 13 else if e = 116 then Some 9 else None)"

definition cons_char :: "nat \<Rightarrow> (str \<times> str) option \<Rightarrow> (str \<times> str) option" where
  "cons_char c r = map_option (\<lambda>(s, rest). (c # s, rest)) r"

text \<open>
  \<open>scanstring\<close> (strict mode), called after the opening quote: the string's value
  and the text after the closing quote, or \<open>None\<close> where the decoder raises
  \<open>JSONDecodeError\<close> (no closing quote, a raw control character, a bad escape). A
  high surrogate escape that is followed by a low surrogate escape is one code point.
\<close>

fun scanstring :: "str \<Rightarrow> (str \<times> str) option" where
  "scanstring [] = None"
| "scanstring (c # cs) =
     (if c = 34 then Some ([], cs)
      else if c = 92 then
        (case cs of
           [] \<Rightarrow> None
         | e # es \<Rightarrow>
             if e = 117 then
               (case decode_uXXXX es of
                  None \<Rightarrow> None
                | Some uni \<Rightarrow>
                    if 55296 \<le> uni \<and> uni \<le> 56319 \<and> take 2 (drop 4 es) = [92, 117] then
                      (case decode_uXXXX (drop 6 es) of
                         None \<Rightarrow> None
                       | Some uni2 \<Rightarrow>
                           if 56320 \<le> uni2 \<and> uni2 \<le> 57343
                           then cons_char (65536 + ((uni - 55296) * 1024 + (uni2 - 56320)))
                                  (scanstring (drop 10 es))
                           else cons_char uni (scanstring (drop 4 es)))
                    else cons_char uni (scanstring (drop 4 es)))
             else
               (case backslash e of
                  None \<Rightarrow> None
                | Some ch \<Rightarrow> cons_char ch (scanstring es)))
      else if c < 32 then None
      else cons_char c (scanstring cs))"

text \<open>
  A number is the longest match of
  \<open>(-?(?:0|[1-9][0-9]*))(\.[0-9]+)?([eE][-+]?[0-9]+)?\<close>: an \<open>int\<close> when it has
  neither fraction nor exponent, a float otherwise. The conversion of the literal of an
  \<open>int\<close> raises \<open>ValueError\<close> when it has more digits than
  \<open>int_max_str_digits\<close> allows; a literal of up to 640 digits is never refused.
\<close>

definition scan_integer :: "str \<Rightarrow> (str \<times> str) option" where
  "scan_integer cs =
     (let sign = (if cs \<noteq> [] \<and> hd cs = 45 then [45] else []);
          r = drop (length sign) cs
      in case r of
           [] \<Rightarrow> None
         | d # r' \<Rightarrow>
             if d = 48 then Some (sign @ [48], r')
             else if 49 \<le> d \<and> d \<le> 57
             then Some (sign @ d # takeWhile is_digit r', dropWhile is_digit r')
             else None)"

definition scan_frac :: "str \<Rightarrow> str \<times> str" where
  "scan_frac cs =
     (case cs of
        [] \<Rightarrow> ([], cs)
      | c # r \<Rightarrow>
          if c = 46 \<and> takeWhile is_digit r \<noteq> []
          then (46 # takeWhile is_digit r, dropWhile is_digit r)
          else ([], cs))"

definition scan_exp :: "str \<Rightarrow> str \<times> str" where
  "scan_exp cs =
     (case cs of
        [] \<Rightarrow> ([], cs)
      | e # r \<Rightarrow>
          let sign = (if r \<noteq> [] \<and> (hd r = 43 \<or> hd r = 45) then [hd r] else []);
              r' = drop (length sign) r
          in if (e = 69 \<or> e = 101) \<and> takeWhile is_digit r' \<noteq> []
             then (e # sign @ takeWhile is_digit r', dropWhile is_digit r')
             else ([], cs))"

definition int_of_literal :: "str \<Rightarrow> int" where
  "int_of_literal l =
     (if l \<noteq> [] \<and> hd l = 45
      then - int (foldl (\<lambda>a d. a * 10 + (d - 48)) 0 (tl l))
      else int (foldl (\<lambda>a d. a * 10 + (d - 48)) 0 l))"

definition too_many_digits :: "runtime \<Rightarrow> str \<Rightarrow> bool" where
  "too_many_digits R l =
     (640 < length (filter is_digit l) \<and> 0 < int_max_str_digits R
      \<and> int_max_str_digits R < length (filter is_digit l))"

text \<open>
  \<open>Inr None\<close> where the text does not start with a number, \<open>Inl\<close> where the
  conversion raises.
\<close>

definition scan_number :: "runtime \<Rightarrow> str \<Rightarrow> exn + (json \<times> str) option" where
  "scan_number R cs =
     (case scan_integer cs of
        None \<Rightarrow> Inr None
      | Some (integer, r1) \<Rightarrow>
          (case scan_frac r1 of
             (frac, r2) \<Rightarrow>
               (case scan_exp r2 of
                  (ex, r3) \<Rightarrow>
                    if frac = [] \<and> ex = [] then
                      (if too_many_digits R integer then Inl ValueError
                       else Inr (Some (JInt (int_of_literal integer), r3)))
                    else Inr (Some (JFloat (integer @ frac @ ex), r3)))))"

text \<open>
  The decoder (\<open>scan_once\<close> with \<open>JSONArray\<close> and \<open>JSONObject\<close>) as a
  machine that reads the text from left to right and keeps the containers that are open
  on a stack, so that it stops at the first place where the decoder raises, with the
  exception raised there. The mode says what may come next; any amount of the four
  whitespace characters may stand before it. A repeated key keeps its first place and
  takes the later value, as \<open>dict\<close> does.
\<close>

fun dict_set :: "(str \<times> json) list \<Rightarrow> str \<Rightarrow> json \<Rightarrow> (str \<times> json) list" where
  "dict_set [] k v = [(k, v)]"
| "dict_set ((k', v') # kvs) k v =
     (if k' = k then (k, v) # kvs else (k', v') # dict_set kvs k v)"

datatype frame = Arr "json list" | Obj "(str \<times> json) list" | ObjVal "(str \<times> json) list" str

datatype mode =
  Value | FirstElem | FirstKey | Key | Colon | Next | Finished json

type_synonym config = "mode \<times> frame list \<times> str"

text \<open>
  A value that has been read goes to the container it stands in. (It never stands in an
  object that waits for a key: the last equation is there for totality.)
\<close>

fun deliver :: "json \<Rightarrow> frame list \<Rightarrow> str \<Rightarrow> exn + config" where
  "deliver v [] rest = Inr (Finished v, [], rest)"
| "deliver v (Arr acc # st) rest = Inr (Next, Arr (acc @ [v]) # st, rest)"
| "deliver v (ObjVal kvs k # st) rest = Inr (Next, Obj (dict_set kvs k v) # st, rest)"
| "deliver v (Obj kvs # st) rest = Inl JSONDecodeError"

text \<open>
  \<open>scan_once\<close> enters a recursive call for every \<open>{\<close> and \<open>[\<close>; that is where
  the recursion limit is met.
\<close>

definition open_container :: "runtime \<Rightarrow> mode \<Rightarrow> frame \<Rightarrow> frame list \<Rightarrow> str \<Rightarrow> exn + config" where
  "open_container R m fr st rest =
     (if nesting_limit R < length st then Inl RecursionError else Inr (m, fr # st, rest))"

definition scan_once :: "runtime \<Rightarrow> frame list \<Rightarrow> str \<Rightarrow> exn + config" where
  "scan_once R st cs =
     (case cs of
        [] \<Rightarrow> Inl JSONDecodeError
      | c # r \<Rightarrow>
          if c = 34 then
            (case scanstring r of
               None \<Rightarrow> Inl JSONDecodeError
             | Some (s, rest) \<Rightarrow> deliver (JStr s) st rest)
          else if c = 123 then open_container R FirstKey (Obj []) st r
          else if c = 91 then open_container R FirstElem (Arr []) st r
          else if prefix (lit ''null'') cs then deliver JNull st (drop 4 cs)
          else if prefix (lit ''true'') cs then deliver (JBool True) st (drop 4 cs)
          else if prefix (lit ''false'') cs then deliver (JBool False) st (drop 5 cs)
          else
            (case scan_number R cs of
               Inl e \<Rightarrow> Inl e
             | Inr (Some (v, rest)) \<Rightarrow> deliver v st rest
             | Inr None \<Rightarrow>
                 if prefix (lit ''NaN'') cs then deliver (JFloat (lit ''NaN'')) st (drop 3 cs)
                 else if prefix (lit ''Infinity'') cs
                 then deliver (JFloat (lit ''Infinity'')) st (drop 8 cs)
                 else if prefix (lit ''-Infinity'') cs
                 then deliver (JFloat (lit ''-Infinity'')) st (drop 9 cs)
                 else Inl JSONDecodeError))"

fun scan_key :: "frame list \<Rightarrow> str \<Rightarrow> exn + config" where
  "scan_key (Obj kvs # st) (c # r) =
     (if c = 34 then
        (case scanstring r of
           None \<Rightarrow> Inl JSONDecodeError
         | Some (k, rest) \<Rightarrow> Inr (Colon, ObjVal kvs k # st, rest))
      else Inl JSONDecodeError)"
| "scan_key _ _ = Inl JSONDecodeError"

fun close :: "nat \<Rightarrow> frame list \<Rightarrow> str \<Rightarrow> exn + config" where
  "close c (Arr acc # st) rest =
     (if c = 93 then deliver (JArr acc) st rest else Inl JSONDecodeError)"
| "close c (Obj kvs # st) rest =
     (if c = 125 then deliver (JObj kvs) st rest else Inl JSONDecodeError)"
| "close c _ rest = Inl JSONDecodeError"

text \<open>One item of a text that does not start with whitespace.\<close>

fun advance :: "runtime \<Rightarrow> mode \<Rightarrow> frame list \<Rightarrow> str \<Rightarrow> exn + config" where
  "advance R m st [] = Inl JSONDecodeError"
| "advance R Value st (c # r) = scan_once R st (c # r)"
| "advance R FirstElem st (c # r) = (if c = 93 then close c st r else scan_once R st (c # r))"
| "advance R FirstKey st (c # r) = (if c = 125 then close c st r else scan_key st (c # r))"
| "advance R Key st (c # r) = scan_key st (c # r)"
| "advance R Colon st (c # r) = (if c = 58 then Inr (Value, st, r) else Inl JSONDecodeError)"
| "advance R Next st (c # r) =
     (if c = 44 then
        (case st of
           Arr acc # _ \<Rightarrow> Inr (Value, st, r)
         | Obj kvs # _ \<Rightarrow> Inr (Key, st, r)
         | _ \<Rightarrow> Inl JSONDecodeError)
      else close c st r)"
| "advance R (Finished v) st (c # r) = Inl JSONDecodeError"

lemma scanstring_shorter: "scanstring cs = Some (s, rest) \<Longrightarrow> length rest < length cs"
proof (induction cs arbitrary: s rule: scanstring.induct)
  case 1
  then show ?case by simp
next
  case (2 c cs)
  show ?case
  proof (cases "c = 34")
    case True
    with "2.prems" show ?thesis by simp
  next
    case quote: False
    show ?thesis
    proof (cases "c = 92")
      case False
      with quote "2.prems" obtain s' where "scanstring cs = Some (s', rest)"
        by (auto simp: cons_char_def split: if_splits)
      with "2.IH"(5) [OF quote False] "2.prems" quote False show ?thesis
        by (auto split: if_splits)
    next
      case True
      with "2.prems" obtain e es where cs: "cs = e # es"
        by (cases cs) auto
      show ?thesis
      proof (cases "e = 117")
        case False
        with quote True cs "2.prems" obtain ch s' where
          "backslash e = Some ch" "scanstring es = Some (s', rest)"
          by (auto simp: cons_char_def split: option.splits)
        with "2.IH"(4) [OF quote True cs False] cs show ?thesis by fastforce
      next
        case u: True
        with quote True cs "2.prems" obtain uni where uni: "decode_uXXXX es = Some uni"
          by (auto split: option.splits)
        have short: "length (drop 4 es) \<le> length es" "length (drop 10 es) \<le> length es"
          by simp_all
        show ?thesis
        proof (cases "55296 \<le> uni \<and> uni \<le> 56319 \<and> take 2 (drop 4 es) = [92, 117]")
          case False
          with quote True cs u uni "2.prems" obtain s' where
            "scanstring (drop 4 es) = Some (s', rest)"
            by (auto simp: cons_char_def split: if_splits)
          with "2.IH"(3) [OF quote True cs u uni False] cs short show ?thesis
            by fastforce
        next
          case pair: True
          with quote True cs u uni "2.prems" obtain uni2 where
            uni2: "decode_uXXXX (drop 6 es) = Some uni2"
            by (auto split: option.splits)
          show ?thesis
          proof (cases "56320 \<le> uni2 \<and> uni2 \<le> 57343")
            case low: True
            with quote True cs u uni pair uni2 "2.prems" obtain s' where
              "scanstring (drop 10 es) = Some (s', rest)"
              by (auto simp: cons_char_def split: if_splits)
            with "2.IH"(1) [OF quote True cs u uni pair uni2 low] cs short show ?thesis
              by fastforce
          next
            case False
            with quote True cs u uni pair uni2 "2.prems" obtain s' where
              "scanstring (drop 4 es) = Some (s', rest)"
              by (auto simp: cons_char_def split: if_splits)
            with "2.IH"(2) [OF quote True cs u uni pair uni2 False] cs short show ?thesis
              by fastforce
          qed
        qed
      qed
    qed
  qed
qed

lemma scan_number_shorter:
  "scan_number R cs = Inr (Some (v, rest)) \<Longrightarrow> length rest < length cs"
proof -
  assume a: "scan_number R cs = Inr (Some (v, rest))"
  have dw: "\<And>xs. length (dropWhile is_digit xs) \<le> length xs"
    by (simp add: length_dropWhile_le)
  from a obtain integer r1 where i: "scan_integer cs = Some (integer, r1)"
    by (auto simp: scan_number_def split: option.splits)
  have r1: "length r1 < length cs"
  proof (cases "cs \<noteq> [] \<and> hd cs = 45")
    case True
    then obtain t where cs: "cs = 45 # t" by (cases cs) auto
    with i obtain d r' where t: "t = d # r'" and "r1 = r' \<or> r1 = dropWhile is_digit r'"
      by (cases t) (auto simp: scan_integer_def Let_def split: if_splits)
    with cs dw [of r'] show ?thesis by auto
  next
    case False
    with i obtain d r' where t: "cs = d # r'" and "r1 = r' \<or> r1 = dropWhile is_digit r'"
      by (cases cs) (auto simp: scan_integer_def Let_def split: if_splits)
    with dw [of r'] show ?thesis by auto
  qed
  have r2: "length (snd (scan_frac r1)) \<le> length r1"
    using dw [of "tl r1"] by (cases r1) (auto simp: scan_frac_def)
  have r3: "length (snd (scan_exp xs)) \<le> length xs" for xs
  proof (cases xs)
    case Nil
    then show ?thesis by (simp add: scan_exp_def)
  next
    case (Cons e r)
    have "length (dropWhile is_digit (drop n r)) \<le> Suc (length r)" for n
      using dw [of "drop n r"] by simp
    from this [of 0] this [of "Suc 0"] Cons show ?thesis
      by (auto simp: scan_exp_def Let_def)
  qed
  from a i have "rest = snd (scan_exp (snd (scan_frac r1)))"
    by (auto simp: scan_number_def split: prod.splits if_splits)
  with r1 r2 r3 [of "snd (scan_frac r1)"] show ?thesis by simp
qed

lemma deliver_rest: "deliver v st rest = Inr (m, st', rest') \<Longrightarrow> rest' = rest"
  by (cases "(v, st, rest)" rule: deliver.cases) auto

lemma close_rest: "close c st rest = Inr (m, st', rest') \<Longrightarrow> rest' = rest"
  by (cases "(c, st, rest)" rule: close.cases) (auto split: if_splits dest: deliver_rest)

lemma scan_once_shorter:
  assumes "scan_once R st cs = Inr (m, st', rest)"
  shows "length rest < length cs"
proof (cases cs)
  case Nil
  with assms show ?thesis by (simp add: scan_once_def)
next
  case (Cons c r)
  show ?thesis
  proof (cases "c = 34")
    case True
    with assms Cons obtain s rest0 where s: "scanstring r = Some (s, rest0)"
      and d: "deliver (JStr s) st rest0 = Inr (m, st', rest)"
      by (auto simp: scan_once_def split: option.splits)
    from scanstring_shorter [OF s] deliver_rest [OF d] Cons show ?thesis by simp
  next
    case False
    with assms Cons show ?thesis
      by (auto simp: scan_once_def open_container_def
               split: if_splits option.splits sum.splits
               dest!: deliver_rest dest: scan_number_shorter)
  qed
qed

lemma scan_key_shorter:
  assumes "scan_key st cs = Inr (m, st', rest)"
  shows "length rest < length cs"
  using assms
  by (cases "(st, cs)" rule: scan_key.cases)
     (auto split: if_splits option.splits dest: scanstring_shorter)

lemma advance_shorter:
  assumes "advance R m st cs = Inr (m', st', rest)"
  shows "length rest < length cs"
  using assms
  by (cases "(R, m, st, cs)" rule: advance.cases)
     (auto split: if_splits list.splits frame.splits
           dest: scan_once_shorter scan_key_shorter close_rest)

text \<open>
  The whole text: whitespace, an item, and so on, until a value is complete and only
  whitespace is left. Text after the value is an error (\<open>Extra data\<close>).
\<close>

function decode :: "runtime \<Rightarrow> mode \<Rightarrow> frame list \<Rightarrow> str \<Rightarrow> exn + json" where
  "decode R m st cs =
     (case dropWhile is_ws cs of
        [] \<Rightarrow> (case m of Finished v \<Rightarrow> Inr v | _ \<Rightarrow> Inl JSONDecodeError)
      | c # r \<Rightarrow>
          (case advance R m st (c # r) of
             Inl e \<Rightarrow> Inl e
           | Inr (m', st', rest) \<Rightarrow> decode R m' st' rest))"
  by pat_completeness auto
termination
proof (relation "measure (\<lambda>(R, m, st, cs). length cs)")
  show "wf (measure (\<lambda>(R, m, st, cs). length cs))" by simp
next
  fix R :: runtime and m :: mode and st :: "frame list" and cs :: str
    and c r x m' y st' rest
  assume d: "dropWhile is_ws cs = c # r" and "advance R m st (c # r) = Inr x"
    and "(m', y) = x" and "(st', rest) = y"
  then have "advance R m st (c # r) = Inr (m', st', rest)" by simp
  from advance_shorter [OF this] have "length rest < length (dropWhile is_ws cs)"
    by (simp add: d)
  also have "\<dots> \<le> length cs" by (rule length_dropWhile_le)
  finally show "((R, m', st', rest), (R, m, st, cs)) \<in> measure (\<lambda>(R, m, st, cs). length cs)"
    by simp
qed

declare decode.simps [simp del]

definition json_loads :: "runtime \<Rightarrow> str \<Rightarrow> exn + json" where
  "json_loads R s = decode R Value [] s"

section \<open>The persisted link store\<close>

text \<open>
  The file \<open>processed_jobs.json\<close> as \<open>open(..., 'r')\<close> and \<open>read\<close> find it:
  absent; present but closed to reading; bytes that are no text in the default
  encoding; or a text.
\<close>

datatype file_state = Missing | Denied | Undecodable | Text str

definition json_load :: "runtime \<Rightarrow> file_state \<Rightarrow> exn + json" where
  "json_load R f =
     (case f of
        Missing \<Rightarrow> Inl FileNotFoundError
      | Denied \<Rightarrow> Inl PermissionError
      | Undecodable \<Rightarrow> Inl UnicodeDecodeError
      | Text s \<Rightarrow> json_loads R s)"

definition get_processed_jobs :: "runtime \<Rightarrow> file_state \<Rightarrow> exn + json" where
  "get_processed_jobs R f =
     (case json_load R f of
        Inr v \<Rightarrow> Inr v
      | Inl e \<Rightarrow> if e = FileNotFoundError \<or> e = JSONDecodeError then Inr (JArr []) else Inl e)"

text \<open>
  Whether the file can be written is a matter of its own: a file can be open to reading
  and closed to writing. \<open>opened\<close> is what \<open>open(..., 'w')\<close> raises, if it raises;
  the file is then as it was. Otherwise the file holds what \<open>json.dump\<close> writes.
  On a list of strings, which is what the program means to keep, \<open>json.dump\<close> raises
  nothing. (On a value nested deeper than the interpreter's recursion limit allows it
  would raise half way; no property below is about the file after such a value was
  saved.)
\<close>

definition save_processed_jobs :: "runtime \<Rightarrow> json \<Rightarrow> exn option \<Rightarrow> exn + file_state" where
  "save_processed_jobs R jobs_list opened =
     (case opened of
        Some e \<Rightarrow> Inl e
      | None \<Rightarrow> Inr (Text (json_dumps R jobs_list)))"

section \<open>The operations of Python that \<open>main\<close> applies to the loaded value\<close>

fun py_len :: "json \<Rightarrow> exn + nat" where
  "py_len (JArr vs) = Inr (length vs)"
| "py_len (JStr s) = Inr (length s)"
| "py_len (JObj kvs) = Inr (length kvs)"
| "py_len _ = Inl TypeError"

text \<open>\<open>url in container\<close> for a string \<open>url\<close>.\<close>

fun py_in :: "str \<Rightarrow> json \<Rightarrow> exn + bool" where
  "py_in url (JArr vs) = Inr (JStr url \<in> set vs)"
| "py_in url (JStr s) = Inr (sublist url s)"
| "py_in url (JObj kvs) = Inr (url \<in> fst ` set kvs)"
| "py_in url _ = Inl TypeError"

text \<open>\<open>container + new\<close> for a list \<open>new\<close> of strings.\<close>

fun py_add :: "json \<Rightarrow> str list \<Rightarrow> exn + json" where
  "py_add (JArr vs) new = Inr (JArr (vs @ map JStr new))"
| "py_add _ new = Inl TypeError"

fun py_get :: "json \<Rightarrow> str \<Rightarrow> json \<Rightarrow> exn + json" where
  "py_get (JObj kvs) k d = Inr (case map_of kvs k of None \<Rightarrow> d | Some v \<Rightarrow> v)"
| "py_get _ k d = Inl AttributeError"

text \<open>\<open>container[0]\<close>.\<close>

fun py_first :: "json \<Rightarrow> exn + json" where
  "py_first (JArr vs) = (case vs of [] \<Rightarrow> Inl IndexError | v # _ \<Rightarrow> Inr v)"
| "py_first (JStr s) = (case s of [] \<Rightarrow> Inl IndexError | c # _ \<Rightarrow> Inr (JStr [c]))"
| "py_first (JObj kvs) = Inl KeyError"
| "py_first _ = Inl TypeError"

section \<open>\<open>urllib.parse\<close>\<close>

text \<open>
  \<open>urlsplit\<close> as CPython 3.12 has it: leading control characters and spaces and
  every tab, carriage return and line feed are dropped; a scheme is split off; a
  network location follows \<open>//\<close> up to the next \<open>/\<close>, \<open>?\<close> or \<open>#\<close>; the fragment
  is cut at the first \<open>#\<close> and the query at the first \<open>?\<close>.
\<close>

definition is_alpha :: "nat \<Rightarrow> bool" where
  "is_alpha c = ((65 \<le> c \<and> c \<le> 90) \<or> (97 \<le> c \<and> c \<le> 122))"

definition is_scheme_char :: "nat \<Rightarrow> bool" where
  "is_scheme_char c = (is_alpha c \<or> is_digit c \<or> c = 43 \<or> c = 45 \<or> c = 46)"

definition clean_url :: "str \<Rightarrow> str" where
  "clean_url url =
     filter (\<lambda>c. c \<noteq> 9 \<and> c \<noteq> 10 \<and> c \<noteq> 13) (dropWhile (\<lambda>c. c \<le> 32) url)"

definition after_scheme :: "str \<Rightarrow> str" where
  "after_scheme url =
     (let head = takeWhile (\<lambda>c. c \<noteq> 58) url
      in if head \<noteq> [] \<and> length head < length url \<and> is_alpha (hd url)
            \<and> list_all is_scheme_char head
         then drop (Suc (length head)) url else url)"

definition is_delim :: "nat \<Rightarrow> bool" where
  "is_delim c = (c = 47 \<or> c = 63 \<or> c = 35)"

definition netloc :: "str \<Rightarrow> str" where
  "netloc url =
     (let u = after_scheme (clean_url url)
      in if take 2 u = [47, 47] then takeWhile (\<lambda>c. \<not> is_delim c) (drop 2 u) else [])"

definition query :: "str \<Rightarrow> str" where
  "query url =
     (let u = after_scheme (clean_url url);
          u' = (if take 2 u = [47, 47] then dropWhile (\<lambda>c. \<not> is_delim c) (drop 2 u) else u);
          u'' = takeWhile (\<lambda>c. c \<noteq> 35) u'
      in drop 1 (dropWhile (\<lambda>c. c \<noteq> 63) u''))"

definition rpartition_at :: "str \<Rightarrow> str" where
  "rpartition_at s = rev (takeWhile (\<lambda>c. c \<noteq> 64) (rev s))"

definition ascii_lower :: "str \<Rightarrow> str" where
  "ascii_lower s = map (\<lambda>c. if 65 \<le> c \<and> c \<le> 90 then c + 32 else c) s"

text \<open>
  \<open>urlparse(url).hostname\<close>: the network location after the last \<open>@\<close> and before
  the first \<open>:\<close>, in lower case up to a \<open>%\<close>; \<open>None\<close> when that is empty.
\<close>

definition hostname :: "runtime \<Rightarrow> str \<Rightarrow> exn + str option" where
  "hostname R url =
     (let n = netloc url
      in if 91 \<in> set n \<or> 93 \<in> set n \<or> \<not> list_all (\<lambda>c. c < 128) n then hostname_ext R url
         else
           (let h = takeWhile (\<lambda>c. c \<noteq> 58) (rpartition_at n)
            in if h = [] then Inr None
               else Inr (Some (ascii_lower (takeWhile (\<lambda>c. c \<noteq> 37) h)
                               @ dropWhile (\<lambda>c. c \<noteq> 37) h))))"

text \<open>
  \<open>unquote\<close>: a text without \<open>%\<close> is returned as it is; otherwise every maximal
  run of ASCII has its \<open>%XX\<close> escapes replaced by bytes and is decoded as UTF-8.
\<close>

fun unquote_to_bytes :: "str \<Rightarrow> nat list" where
  "unquote_to_bytes [] = []"
| "unquote_to_bytes (c # cs) =
     (if c = 37 then
        (case cs of
           a # b # rest \<Rightarrow>
             (case (hexval a, hexval b) of
                (Some x, Some y) \<Rightarrow> (x * 16 + y) # unquote_to_bytes rest
              | _ \<Rightarrow> c # unquote_to_bytes cs)
         | _ \<Rightarrow> c # unquote_to_bytes cs)
      else c # unquote_to_bytes cs)"

definition decode_utf8 :: "runtime \<Rightarrow> nat list \<Rightarrow> str" where
  "decode_utf8 R bs = (if list_all (\<lambda>b. b < 128) bs then bs else utf8_replace R bs)"

function unquote_runs :: "runtime \<Rightarrow> str \<Rightarrow> str" where
  "unquote_runs R [] = []"
| "unquote_runs R (c # cs) =
     (if c < 128
      then decode_utf8 R (unquote_to_bytes (c # takeWhile (\<lambda>x. x < 128) cs))
           @ unquote_runs R (dropWhile (\<lambda>x. x < 128) cs)
      else c # unquote_runs R cs)"
  by pat_completeness auto
termination
  by (relation "measure (\<lambda>(R, s). length s)")
     (auto simp: length_dropWhile_le less_Suc_eq_le)

definition unquote :: "runtime \<Rightarrow> str \<Rightarrow> str" where
  "unquote R s = (if 37 \<in> set s then unquote_runs R s else s)"

text \<open>
  \<open>parse_qs(qs).get('q', [None])[0]\<close>: the fields are split at \<open>&\<close>; a field
  without \<open>=\<close> or with nothing after it is skipped; \<open>+\<close> stands for a space; the
  first value whose decoded name is \<open>q\<close> is the result.
\<close>

function split_on :: "nat \<Rightarrow> str \<Rightarrow> str list" where
  "split_on sep s =
     (if sep \<in> set s
      then takeWhile (\<lambda>c. c \<noteq> sep) s # split_on sep (drop 1 (dropWhile (\<lambda>c. c \<noteq> sep) s))
      else [s])"
  by pat_completeness auto
termination
proof (relation "measure (\<lambda>(sep, s). length s)")
  show "wf (measure (\<lambda>(sep, s). length s))" by simp
next
  fix sep :: nat and s :: str
  assume "sep \<in> set s"
  then have "dropWhile (\<lambda>c. c \<noteq> sep) s \<noteq> []" by (induction s) auto
  moreover have "length (dropWhile (\<lambda>c. c \<noteq> sep) s) \<le> length s"
    by (rule length_dropWhile_le)
  ultimately have "length (drop 1 (dropWhile (\<lambda>c. c \<noteq> sep) s)) < length s"
    by (cases "dropWhile (\<lambda>c. c \<noteq> sep) s") auto
  then show "((sep, drop 1 (dropWhile (\<lambda>c. c \<noteq> sep) s)), (sep, s))
               \<in> measure (\<lambda>(sep, s). length s)"
    by simp
qed

declare split_on.simps [simp del]

definition plus_to_space :: "str \<Rightarrow> str" where
  "plus_to_space s = map (\<lambda>c. if c = 43 then 32 else c) s"

definition parse_field :: "runtime \<Rightarrow> str \<Rightarrow> (str \<times> str) option" where
  "parse_field R name_value =
     (if 61 \<in> set name_value \<and> drop 1 (dropWhile (\<lambda>c. c \<noteq> 61) name_value) \<noteq> []
      then Some (unquote R (plus_to_space (takeWhile (\<lambda>c. c \<noteq> 61) name_value)),
                 unquote R (plus_to_space (drop 1 (dropWhile (\<lambda>c. c \<noteq> 61) name_value))))
      else None)"

definition parse_qsl :: "runtime \<Rightarrow> str \<Rightarrow> (str \<times> str) list" where
  "parse_qsl R qs = (if qs = [] then [] else List.map_filter (parse_field R) (split_on 38 qs))"

definition first_q :: "runtime \<Rightarrow> str \<Rightarrow> str option" where
  "first_q R href = map_of (parse_qsl R (query href)) (lit ''q'')"

section \<open>The services outside the program\<close>

text \<open>
  What \<open>BeautifulSoup\<close> finds in a fetched page: the \<open>title\<close> element (absent;
  present with no single string, so that \<open>.string\<close> is \<open>None\<close>; or present with
  its string) and the text of the \<open>body\<close> element when there is one.
\<close>

datatype title_tag = NoTitle | TitleWithoutString | TitleString str

record page =
  page_title :: title_tag
  page_body :: "str option"

text \<open>
  An HTTP response as the program reads it: the status and what \<open>response.json()\<close>
  returns or raises.
\<close>

record response =
  status_code :: nat
  json_result :: "exn + json"

text \<open>
  The dictionaries \<open>status_update\<close> (\<open>title\<close>, \<open>link\<close>) and \<open>job_details\<close>
  (also \<open>company\<close>, \<open>details\<close>). A title or a company can be \<open>None\<close>.
\<close>

record notice =
  title :: "str option"
  link :: str

record job_details = notice +
  company :: "str option"
  details :: str

record ntfy_request =
  ntfy_url :: str
  ntfy_data :: str
  ntfy_title :: "str option"
  ntfy_click :: str
  ntfy_tags :: str

text \<open>
  One run's surroundings: the environment variables, the state file as it is read and
  what opening it for writing raises (\<open>None\<close> when it can be written), and the answers
  of the network. \<open>google_search\<close> is the search request and the \<open>href\<close>s of the
  anchors of its result page in document order (or the exception that ends the run);
  the other three answer the request made for the \<open>i\<close>-th candidate link.
\<close>

record world =
  GEMINI_API_KEY :: "str option"
  NTFY_TOPIC :: "str option"
  GITHUB_REPOSITORY :: "str option"
  PROCESSED_JOBS_FILE :: file_state
  open_for_writing :: "exn option"
  google_search :: "exn + str list"
  get_page :: "nat \<Rightarrow> str \<Rightarrow> exn + page"
  gemini_post :: "nat \<Rightarrow> str \<Rightarrow> json \<Rightarrow> exn + response"
  ntfy_post :: "nat \<Rightarrow> ntfy_request \<Rightarrow> exn + unit"
  python :: runtime

section \<open>Standard output\<close>

text \<open>
  \<open>print\<close> encodes its text for the standard output. Every code point has a UTF-8
  encoding but the surrogates: on a text that holds a surrogate which the error handler
  refuses, \<open>print\<close> raises \<open>UnicodeEncodeError\<close>. Such a text can reach the
  program: the JSON decoder turns the escape of a lone surrogate into that code point,
  and so does the HTML parser with a character reference in the text of an element.
\<close>

definition is_surrogate :: "nat \<Rightarrow> bool" where
  "is_surrogate c = (55296 \<le> c \<and> c \<le> 57343)"

definition refused :: "runtime \<Rightarrow> nat \<Rightarrow> bool" where
  "refused R c = (is_surrogate c \<and> stdout_refuses R c)"

definition py_print :: "runtime \<Rightarrow> str \<Rightarrow> exn + unit" where
  "py_print R s = (if list_ex (refused R) s then Inl UnicodeEncodeError else Inr ())"

text \<open>Python's whitespace, which \<open>str.strip\<close> and \<open>str.split\<close> take away.\<close>

definition is_space :: "nat \<Rightarrow> bool" where
  "is_space c =
     ((9 \<le> c \<and> c \<le> 13) \<or> (28 \<le> c \<and> c \<le> 32) \<or> c = 133 \<or> c = 160 \<or> c = 5760
      \<or> (8192 \<le> c \<and> c \<le> 8202) \<or> c = 8232 \<or> c = 8233 \<or> c = 8239 \<or> c = 8287
      \<or> c = 12288)"

definition strip :: "str \<Rightarrow> str" where
  "strip s = rev (dropWhile is_space (rev (dropWhile is_space s)))"

text \<open>How an f-string shows a value that is a string or \<open>None\<close>.\<close>

definition format_value :: "str option \<Rightarrow> str" where
  "format_value v = (case v of None \<Rightarrow> lit ''None'' | Some s \<Rightarrow> s)"

section \<open>The eligibility classifier\<close>

definition prompt_line :: "str \<Rightarrow> str" where
  "prompt_line s = replicate 8 32 @ s @ [10]"

definition prompt :: "job_details \<Rightarrow> str" where
  "prompt jd =
     [10]
     @ prompt_line (lit ''Please act as an expert HR screener. Analyze the following job posting.'')
     @ prompt_line (lit ''My conditions are:'')
     @ prompt_line (lit ''1. The job MUST be for a \"fresher\", \"new graduate\", \"2025 batch\", or 0 years experience.'')
     @ prompt_line (lit ''2. The role MUST be for a \"software developer\", \"software engineer\", \"programmer\", \"web developer\", or similar coding role.'')
     @ prompt_line (lit ''3. The location MUST be \"Bengaluru\" (Bangalore).'')
     @ [10]
     @ prompt_line (lit ''Job Details:'')
     @ prompt_line (lit ''- Title: '' @ format_value (title jd))
     @ prompt_line (lit ''- Source: '' @ format_value (company jd))
     @ prompt_line (lit ''- Page Content (first 2000 chars): '' @ take 2000 (details jd))
     @ [10]
     @ prompt_line (lit ''Based ONLY on this text, does this job meet ALL my conditions (1, 2, and 3)?'')
     @ prompt_line (lit ''Respond with a single word: YES or NO.'')
     @ replicate 4 32"

definition api_url :: "str \<Rightarrow> str" where
  "api_url api_key =
     lit ''https://generativelanguage.googleapis.com/v1beta/models/gemini-2.0-flash:generateContent?key=''
     @ api_key"

definition payload :: "job_details \<Rightarrow> json" where
  "payload jd =
     JObj [(lit ''contents'',
            JArr [JObj [(lit ''role'', JStr (lit ''user'')),
                        (lit ''parts'', JArr [JObj [(lit ''text'', JStr (prompt jd))]])]])]"

definition bind :: "exn + 'a \<Rightarrow> ('a \<Rightarrow> exn + 'b) \<Rightarrow> exn + 'b" where
  "bind m f = (case m of Inl e \<Rightarrow> Inl e | Inr x \<Rightarrow> f x)"

text \<open>
  \<open>result.get('candidates', [{}])[0].get('content', {}).get('parts', [{}])[0].get('text', '')\<close>
\<close>

definition text_response :: "json \<Rightarrow> exn + json" where
  "text_response result =
     bind (py_get result (lit ''candidates'') (JArr [JObj []])) (\<lambda>candidates.
     bind (py_first candidates) (\<lambda>candidate.
     bind (py_get candidate (lit ''content'') (JObj [])) (\<lambda>content.
     bind (py_get content (lit ''parts'') (JArr [JObj []])) (\<lambda>parts.
     bind (py_first parts) (\<lambda>part.
     py_get part (lit ''text'') (JStr []))))))"

definition raise_for_status :: "response \<Rightarrow> exn + unit" where
  "raise_for_status r =
     (if 400 \<le> status_code r \<and> status_code r < 600 then Inl (RequestException HTTPError)
      else Inr ())"

text \<open>The line that line 50 prints.\<close>

definition analysis_line :: "job_details \<Rightarrow> str \<Rightarrow> str" where
  "analysis_line jd reply =
     lit ''AI Analysis for '' @ [39] @ format_value (title jd) @ [39] @ lit '': '' @ strip reply"

text \<open>
  The body of the \<open>try\<close>, lines 46 to 51: a reply that is not a string has neither
  \<open>strip\<close> nor \<open>upper\<close>; the verdict is computed after the line has been printed.
\<close>

definition analyze_body :: "runtime \<Rightarrow> (str \<Rightarrow> json \<Rightarrow> exn + response) \<Rightarrow> job_details \<Rightarrow> str \<Rightarrow> exn + bool" where
  "analyze_body R post jd api_key =
     bind (post (api_url api_key) (payload jd)) (\<lambda>response.
     bind (raise_for_status response) (\<lambda>_.
     bind (json_result response) (\<lambda>result.
     bind (text_response result) (\<lambda>reply.
       case reply of
         JStr s \<Rightarrow>
           bind (py_print R (analysis_line jd s)) (\<lambda>_.
             Inr (sublist (lit ''YES'') (upper R s)))
       | _ \<Rightarrow> Inl AttributeError))))"

text \<open>
  \<open>except requests.exceptions.RequestException\<close>: its handler prints the exception
  and returns \<open>False\<close>; every other exception leaves the function.
\<close>

definition analyze_with_gemini :: "runtime \<Rightarrow> (str \<Rightarrow> json \<Rightarrow> exn + response) \<Rightarrow> job_details \<Rightarrow> str \<Rightarrow> exn + bool" where
  "analyze_with_gemini R post jd api_key =
     (case analyze_body R post jd api_key of
        Inr verdict \<Rightarrow> Inr verdict
      | Inl e \<Rightarrow> if is_request_exception e then Inr False else Inl e)"

section \<open>The notifier\<close>

text \<open>
  The job notification sends \<open>job['title'].encode('utf-8')\<close>: \<open>None\<close> has no
  \<open>encode\<close>, and a surrogate code point cannot be encoded. The body is kept as text.
  After the request, inside the \<open>try\<close>, the title of the notification is printed.
\<close>

definition send_ntfy_notification :: "runtime \<Rightarrow> (ntfy_request \<Rightarrow> exn + unit) \<Rightarrow> 'a notice_scheme \<Rightarrow> str \<Rightarrow> bool \<Rightarrow> exn + unit" where
  "send_ntfy_notification R post job ntfy_topic is_no_job_notification =
     bind
       (if is_no_job_notification
        then Inr (title job, lit ''No new relevant fresher jobs found in the last run.'',
                  lit ''search,x'')
        else
          (case title job of
             None \<Rightarrow> Inl AttributeError
           | Some t \<Rightarrow>
               if list_ex is_surrogate t then Inl UnicodeEncodeError
               else Inr (Some (lit ''New Fresher Job Found!''), t, lit ''briefcase'')))
       (\<lambda>(notification_title, notification_body, notification_tags).
          case post \<lparr>ntfy_url = lit ''https://ntfy.sh/'' @ ntfy_topic,
                      ntfy_data = notification_body,
                      ntfy_title = notification_title,
                      ntfy_click = link job,
                      ntfy_tags = notification_tags\<rparr> of
            Inr _ \<Rightarrow>
              py_print R
                (lit ''Successfully sent notification: '' @ format_value notification_title)
          | Inl e \<Rightarrow> if is_request_exception e then Inr () else Inl e)"

section \<open>The orchestrator\<close>

text \<open>
  The second \<open>main\<close> sleeps before each fetch is left out, and so is what \<open>main\<close>
  itself prints: fixed text, a count, or a candidate link. A link is the value of an
  \<open>href\<close> attribute of the search page after \<open>unquote\<close>: the page is decoded
  with replacement, \<open>html.parser\<close> replaces a character reference to a surrogate in
  an attribute by U+FFFD, and \<open>unquote\<close> decodes with replacement, so a link holds
  no surrogate and is printed. The text of an exception, which the handlers print,
  is taken to hold no surrogate either (that of a \<open>UnicodeEncodeError\<close> shows the
  offending character as an escape).
\<close>

text \<open>\<open>" ".join(text.split())\<close>: runs of Python's whitespace become one space.\<close>

function py_split :: "str \<Rightarrow> str list" where
  "py_split [] = []"
| "py_split (c # cs) =
     (if is_space c then py_split cs
      else (c # takeWhile (\<lambda>x. \<not> is_space x) cs)
           # py_split (dropWhile (\<lambda>x. \<not> is_space x) cs))"
  by pat_completeness auto
termination
  by (relation "measure length") (auto simp: length_dropWhile_le less_Suc_eq_le)

text \<open>The search step: lines 112 to 118.\<close>

definition candidate :: "runtime \<Rightarrow> json \<Rightarrow> str \<Rightarrow> exn + str option" where
  "candidate R processed_jobs href =
     (if prefix (lit ''/url?q='') href then
        (case first_q R href of
           None \<Rightarrow> Inr None
         | Some url \<Rightarrow>
             if url \<noteq> [] \<and> \<not> sublist (lit ''google.com'') url
             then bind (py_in url processed_jobs)
                    (\<lambda>seen. Inr (if seen then None else Some url))
             else Inr None)
      else Inr None)"

fun find_links :: "runtime \<Rightarrow> json \<Rightarrow> str list \<Rightarrow> exn + str list" where
  "find_links R processed_jobs [] = Inr []"
| "find_links R processed_jobs (href # hrefs) =
     bind (candidate R processed_jobs href) (\<lambda>c.
     bind (find_links R processed_jobs hrefs) (\<lambda>links.
       Inr (case c of None \<Rightarrow> links | Some url \<Rightarrow> url # links)))"

text \<open>The dictionary of lines 135 to 140, its values computed in the order written.\<close>

definition make_job_details :: "runtime \<Rightarrow> page \<Rightarrow> str \<Rightarrow> exn + job_details" where
  "make_job_details R pg url =
     (let t = (case page_title pg of
                 NoTitle \<Rightarrow> Some (lit ''No Title Found'')
               | TitleWithoutString \<Rightarrow> None
               | TitleString s \<Rightarrow> Some s)
      in bind (hostname R url) (\<lambda>host.
           case page_body pg of
             None \<Rightarrow> Inl AttributeError
           | Some body \<Rightarrow>
               Inr \<lparr>title = t, link = url, company = host,
                     details = join [32] (py_split body)\<rparr>))"

text \<open>
  What a run does, in order: the requests it makes for a link, the two kinds of
  notification, and the call of \<open>save_processed_jobs\<close>.
\<close>

datatype event =
  Fetch str | Classify job_details | NotifyJob job_details | NotifyStatus notice | Save json

text \<open>
  The body of the loop for the \<open>i\<close>-th link: its events, and either the exception that
  \<open>except Exception\<close> caught or whether the link was appended to \<open>new_jobs_found\<close>.
\<close>

definition process_link :: "world \<Rightarrow> str \<Rightarrow> str \<Rightarrow> nat \<Rightarrow> str \<Rightarrow> event list \<times> (exn + bool)" where
  "process_link W api_key topic i url =
     (case get_page W i url of
        Inl e \<Rightarrow> ([Fetch url], Inl e)
      | Inr pg \<Rightarrow>
          (case make_job_details (python W) pg url of
             Inl e \<Rightarrow> ([Fetch url], Inl e)
           | Inr jd \<Rightarrow>
               (case analyze_with_gemini (python W) (gemini_post W i) jd api_key of
                  Inl e \<Rightarrow> ([Fetch url, Classify jd], Inl e)
                | Inr verdict \<Rightarrow>
                    if verdict then
                      (case send_ntfy_notification (python W) (ntfy_post W i) jd topic False of
                         Inl e \<Rightarrow> ([Fetch url, Classify jd, NotifyJob jd], Inl e)
                       | Inr _ \<Rightarrow> ([Fetch url, Classify jd, NotifyJob jd], Inr True))
                    else ([Fetch url, Classify jd], Inr False))))"

fun process_links :: "world \<Rightarrow> str \<Rightarrow> str \<Rightarrow> nat \<Rightarrow> str list \<Rightarrow> event list \<times> str list" where
  "process_links W api_key topic i [] = ([], [])"
| "process_links W api_key topic i (url # links) =
     (case process_link W api_key topic i url of
        (evs, r) \<Rightarrow>
          (case process_links W api_key topic (Suc i) links of
             (evs', new_jobs_found) \<Rightarrow>
               (evs @ evs', (if r = Inr True then [url] else []) @ new_jobs_found)))"

datatype outcome = MissingConfiguration | Raised exn | Done

record run =
  events :: "event list"
  new_jobs_found :: "str list"
  file_after :: file_state
  outcome :: outcome

definition status_update :: "world \<Rightarrow> notice" where
  "status_update W =
     \<lparr>title = Some (lit ''Job Search Complete''),
      link = lit ''https://github.com/''
             @ (case GITHUB_REPOSITORY W of None \<Rightarrow> [] | Some r \<Rightarrow> r) @ lit ''/actions''\<rparr>"

definition finish :: "world \<Rightarrow> str \<Rightarrow> json \<Rightarrow> nat \<Rightarrow> event list \<times> str list \<Rightarrow> run" where
  "finish W topic processed_jobs n looped =
     (case looped of
        (evs, found) \<Rightarrow>
          if found \<noteq> [] then
            (case py_add processed_jobs found of
               Inl e \<Rightarrow> \<lparr>events = evs, new_jobs_found = found,
                          file_after = PROCESSED_JOBS_FILE W, outcome = Raised e\<rparr>
             | Inr updated_processed_jobs \<Rightarrow>
                 (case save_processed_jobs (python W) updated_processed_jobs
                         (open_for_writing W) of
                    Inl e \<Rightarrow> \<lparr>events = evs @ [Save updated_processed_jobs],
                               new_jobs_found = found,
                               file_after = PROCESSED_JOBS_FILE W, outcome = Raised e\<rparr>
                  | Inr f \<Rightarrow> \<lparr>events = evs @ [Save updated_processed_jobs],
                               new_jobs_found = found, file_after = f, outcome = Done\<rparr>))
          else
            \<lparr>events = evs @ [NotifyStatus (status_update W)], new_jobs_found = found,
             file_after = PROCESSED_JOBS_FILE W,
             outcome =
               (case send_ntfy_notification (python W) (ntfy_post W n) (status_update W) topic True of
                  Inl e \<Rightarrow> Raised e
                | Inr _ \<Rightarrow> Done)\<rparr>)"

definition aborted :: "world \<Rightarrow> outcome \<Rightarrow> run" where
  "aborted W out =
     \<lparr>events = [], new_jobs_found = [], file_after = PROCESSED_JOBS_FILE W, outcome = out\<rparr>"

definition main :: "world \<Rightarrow> run" where
  "main W =
     (case (GEMINI_API_KEY W, NTFY_TOPIC W) of
        (Some api_key, Some topic) \<Rightarrow>
          if api_key = [] \<or> topic = [] then aborted W MissingConfiguration
          else
            (case get_processed_jobs (python W) (PROCESSED_JOBS_FILE W) of
               Inl e \<Rightarrow> aborted W (Raised e)
             | Inr processed_jobs \<Rightarrow>
                 (case py_len processed_jobs of
                    Inl e \<Rightarrow> aborted W (Raised e)
                  | Inr _ \<Rightarrow>
                      (case google_search W of
                         Inl e \<Rightarrow> aborted W (Raised e)
                       | Inr hrefs \<Rightarrow>
                           (case find_links (python W) processed_jobs hrefs of
                              Inl e \<Rightarrow> aborted W (Raised e)
                            | Inr links \<Rightarrow>
                                finish W topic processed_jobs (length links)
                                  (process_links W api_key topic 0 links)))))
      | _ \<Rightarrow> aborted W MissingConfiguration)"

section \<open>Notions the properties are stated with\<close>

text \<open>
  A Unicode scalar value: a code point that is no surrogate. Text decoded from a file
  or from an HTTP response consists of these.
\<close>

definition is_scalar :: "nat \<Rightarrow> bool" where
  "is_scalar c = (c < 1114112 \<and> \<not> is_surrogate c)"

text \<open>The link an event is about.\<close>

fun subject :: "event \<Rightarrow> str option" where
  "subject (Fetch url) = Some url"
| "subject (Classify jd) = Some (link jd)"
| "subject (NotifyJob jd) = Some (link jd)"
| "subject (NotifyStatus n) = None"
| "subject (Save v) = None"

fun is_notify_status :: "event \<Rightarrow> bool" where
  "is_notify_status (NotifyStatus n) = True"
| "is_notify_status _ = False"

fun is_save :: "event \<Rightarrow> bool" where
  "is_save (Save v) = True"
| "is_save _ = False"

fun is_notify_job :: "event \<Rightarrow> bool" where
  "is_notify_job (NotifyJob jd) = True"
| "is_notify_job _ = False"

text \<open>
  A JSON text without its insignificant whitespace: the four whitespace characters
  are dropped outside string literals.
\<close>

fun significant_from :: "bool \<Rightarrow> str \<Rightarrow> str" where
  "significant_from in_string [] = []"
| "significant_from False (c # cs) =
     (if is_ws c then significant_from False cs else c # significant_from (c = 34) cs)"
| "significant_from True (c # cs) =
     (if c = 92 then (case cs of [] \<Rightarrow> [c] | e # es \<Rightarrow> c # e # significant_from True es)
      else c # significant_from (c \<noteq> 34) cs)"

definition significant :: "str \<Rightarrow> str" where
  "significant s = significant_from False s"

text \<open>
  \<open>load()\<close> followed immediately by \<open>save()\<close> of what was loaded: the file
  afterwards, or the exception raised, which leaves the file as it was.
\<close>

definition load_then_save :: "runtime \<Rightarrow> exn option \<Rightarrow> file_state \<Rightarrow> exn + file_state" where
  "load_then_save R opened f =
     bind (get_processed_jobs R f) (\<lambda>jobs_list. save_processed_jobs R jobs_list opened)"

section \<open>Runs to try the statements on\<close>

text \<open>
  The scenario of the specification: \<open>https://a.com/job1\<close> is on file, the search
  returns it and \<open>https://b.com/job2\<close>, and the classifier answers
  \<open>YES, this matches\<close>. The file can be written. The runtime tables are never
  asked: every text is ASCII. Standard output has the error handler
  \<open>surrogateescape\<close>. The limits are CPython's defaults: 4300 digits, and a
  recursion limit of 1000, which leaves the decoder room for some 990 containers.
\<close>

definition ascii_runtime :: runtime where
  "ascii_runtime =
     \<lparr>upper_ext = (\<lambda>c. [c]), utf8_replace = (\<lambda>bs. bs), float_repr = (\<lambda>l. l),
      hostname_ext = (\<lambda>url. Inr None),
      stdout_refuses = (\<lambda>c. \<not> (56448 \<le> c \<and> c \<le> 56575)),
      int_max_str_digits = 4300, nesting_limit = 990\<rparr>"

definition reply_json :: "str \<Rightarrow> json" where
  "reply_json s =
     JObj [(lit ''candidates'',
            JArr [JObj [(lit ''content'',
                         JObj [(lit ''parts'', JArr [JObj [(lit ''text'', JStr s)]])])]])]"

definition job1 :: str where "job1 = lit ''https://a.com/job1''"
definition job2 :: str where "job2 = lit ''https://b.com/job2''"

definition href1 :: str where "href1 = lit ''/url?q=https://a.com/job1''"
definition href2 :: str where "href2 = lit ''/url?q=https://b.com/job2''"

definition example_page :: page where
  "example_page = \<lparr>page_title = TitleString (lit ''Walk-in''), page_body = Some (lit ''Walk-in  drive'')\<rparr>"

definition example_job :: job_details where
  "example_job = \<lparr>title = Some (lit ''Walk-in''), link = job2, company = Some (lit ''b.com''),
     details = lit ''Walk-in drive''\<rparr>"

definition example_world :: world where
  "example_world =
     \<lparr>GEMINI_API_KEY = Some (lit ''k''), NTFY_TOPIC = Some (lit ''jobs''),
      GITHUB_REPOSITORY = Some (lit ''me/repo''),
      PROCESSED_JOBS_FILE = Text (json_dumps ascii_runtime (JArr [JStr job1])),
      open_for_writing = None,
      google_search = Inr [href1, href2],
      get_page = (\<lambda>i url. Inr example_page),
      gemini_post = (\<lambda>i url body.
         Inr \<lparr>status_code = 200, json_result = Inr (reply_json (lit ''YES, this matches''))\<rparr>),
      ntfy_post = (\<lambda>i r. Inr ()),
      python = ascii_runtime\<rparr>"

text \<open>
  A reply of the classifier service with no candidate; a state file that spells
  \<open>/\<close> with the escape \<open>\/\<close>; a search result that names the search provider's
  host in capital letters, and the address the search itself goes to.
\<close>

definition empty_candidates :: json where
  "empty_candidates = JObj [(lit ''candidates'', JArr [])]"

definition escaped_slash_file :: file_state where
  "escaped_slash_file = Text [91, 34, 92, 47, 34, 93]"

definition href_upper :: str where
  "href_upper = lit ''/url?q=https://WWW.GOOGLE.COM/maps''"

definition maps_upper :: str where
  "maps_upper = lit ''https://WWW.GOOGLE.COM/maps''"

definition google_url :: str where
  "google_url = lit ''https://www.google.com/search''"

text \<open>
  Variations of it: the classifier answers \<open>NO\<close>; it answers \<open>Well, yEs!\<close>;
  it answers \<open>YES\<close> followed by the lone surrogate U+D800 (the JSON text
  \<open>"YES\ud800"\<close>); nothing is on file and the first fetch times out; nothing is on
  file and the search returns the same address twice; the file is read-only.
\<close>

definition rejecting_world :: world where
  "rejecting_world =
     example_world\<lparr>gemini_post := \<lambda>i url body.
       Inr \<lparr>status_code = 200, json_result = Inr (reply_json (lit ''NO''))\<rparr>\<rparr>"

definition mixed_case_world :: world where
  "mixed_case_world =
     example_world\<lparr>gemini_post := \<lambda>i url body.
       Inr \<lparr>status_code = 200, json_result = Inr (reply_json (lit ''Well, yEs!''))\<rparr>\<rparr>"

definition yes_surrogate :: str where
  "yes_surrogate = lit ''YES'' @ [55296]"

definition surrogate_world :: world where
  "surrogate_world =
     example_world\<lparr>gemini_post := \<lambda>i url body.
       Inr \<lparr>status_code = 200, json_result = Inr (reply_json yes_surrogate)\<rparr>\<rparr>"

definition read_only_world :: world where
  "read_only_world = example_world\<lparr>open_for_writing := Some PermissionError\<rparr>"

definition flaky_world :: world where
  "flaky_world =
     example_world\<lparr>PROCESSED_JOBS_FILE := Missing,
       get_page := \<lambda>i url. if i = 0 then Inl (RequestException Timeout) else Inr example_page\<rparr>"

definition repeating_world :: world where
  "repeating_world =
     example_world\<lparr>PROCESSED_JOBS_FILE := Missing, google_search := Inr [href2, href2]\<rparr>"

section \<open>Decoding what the encoder wrote\<close>

lemma hexval_hexdigit: "d < 16 \<Longrightarrow> hexval (hexdigit d) = Some d"
  by (auto simp: hexval_def hexdigit_def)

lemma hex_digits_value:
  fixes n :: nat
  assumes "n < 65536"
  shows "((n div 4096 mod 16 * 16 + n div 256 mod 16) * 16 + n div 16 mod 16) * 16 + n mod 16 = n"
proof -
  have a: "n div 256 = n div 16 div 16" and b: "n div 4096 = n div 16 div 16 div 16"
    by (simp_all add: div_mult2_eq)
  from assms have "n div 4096 < 16" by simp
  then have c: "n div 4096 mod 16 = n div 16 div 16 div 16" by (simp add: b)
  have s1: "n div 16 div 16 div 16 * 16 + n div 16 div 16 mod 16 = n div 16 div 16"
    by (rule div_mult_mod_eq)
  have s2: "n div 16 div 16 * 16 + n div 16 mod 16 = n div 16"
    by (rule div_mult_mod_eq)
  have s3: "n div 16 * 16 + n mod 16 = n"
    by (rule div_mult_mod_eq)
  show ?thesis
    unfolding c a s1 s2 s3 ..
qed

lemma decode_hex4: "n < 65536 \<Longrightarrow> decode_uXXXX (hex4 n @ rest) = Some n"
  using hex_digits_value [of n] by (simp add: hex4_def hexval_hexdigit)


lemma length_hex4 [simp]: "length (hex4 n) = 4"
  by (simp add: hex4_def)

lemma scanstring_short_escape:
  assumes "c \<in> {34, 92, 10, 13, 9, 12, 8}" and "scanstring tail = Some (s, rest)"
  shows "scanstring (escape_char c @ tail) = Some (c # s, rest)"
  using assms by (auto simp: escape_char_def backslash_def cons_char_def)

lemma scanstring_plain:
  assumes "c \<notin> {34, 92, 10, 13, 9, 12, 8}" "32 \<le> c" "c \<le> 126"
    and "scanstring tail = Some (s, rest)"
  shows "scanstring (escape_char c @ tail) = Some (c # s, rest)"
  using assms by (auto simp: escape_char_def cons_char_def)

lemma scanstring_bmp:
  assumes "c \<notin> {34, 92, 10, 13, 9, 12, 8}" "\<not> (32 \<le> c \<and> c \<le> 126)" "c < 65536"
    and "\<not> is_surrogate c" and "scanstring tail = Some (s, rest)"
  shows "scanstring (escape_char c @ tail) = Some (c # s, rest)"
proof -
  from assms(4) have ns: "\<not> (55296 \<le> c \<and> c \<le> 56319 \<and> take 2 (drop 4 (hex4 c @ tail)) = [92, 117])"
    by (auto simp: is_surrogate_def)
  from assms(1,2,3) have e: "escape_char c @ tail = 92 # 117 # hex4 c @ tail"
    by (auto simp: escape_char_def)
  show ?thesis
    unfolding e
    apply (subst scanstring.simps)
    apply (simp only: decode_hex4 [OF assms(3)] ns list.case option.case if_False)
    apply (simp add: assms(5) cons_char_def)
    done
qed

lemma scanstring_astral:
  assumes "65536 \<le> c" "c < 1114112" and "scanstring tail = Some (s, rest)"
  shows "scanstring (escape_char c @ tail) = Some (c # s, rest)"
proof -
  define v where "v = c - 65536"
  define hi where "hi = 55296 + v div 1024 mod 1024"
  define lo where "lo = 56320 + v mod 1024"
  from assms have v: "v < 1048576" and cv: "c = 65536 + v"
    by (simp_all add: v_def)
  from v have "v div 1024 < 1024" by simp
  then have m: "v div 1024 mod 1024 = v div 1024" by simp
  have hi: "55296 \<le> hi \<and> hi \<le> 56319" and hi': "hi < 65536"
    by (simp_all add: hi_def)
  have lo: "56320 \<le> lo \<and> lo \<le> 57343" and lo': "lo < 65536"
    by (simp_all add: lo_def)
  have "(hi - 55296) * 1024 + (lo - 56320) = v div 1024 * 1024 + v mod 1024"
    by (simp add: hi_def lo_def m)
  also have "\<dots> = v" by (rule div_mult_mod_eq)
  finally have recombine: "65536 + ((hi - 55296) * 1024 + (lo - 56320)) = c"
    by (simp add: cv)
  from assms(1) have e: "escape_char c @ tail = 92 # 117 # hex4 hi @ [92, 117] @ hex4 lo @ tail"
    by (auto simp: escape_char_def hi_def lo_def v_def)
  have d6: "drop 6 (hex4 hi @ [92, 117] @ hex4 lo @ tail) = hex4 lo @ tail"
    by (simp add: hex4_def)
  have d10: "drop 10 (hex4 hi @ [92, 117] @ hex4 lo @ tail) = tail"
    by (simp add: hex4_def)
  have d4: "take 2 (drop 4 (hex4 hi @ [92, 117] @ hex4 lo @ tail)) = [92, 117]"
    by (simp add: hex4_def)
  show ?thesis
    unfolding e
    apply (subst scanstring.simps)
    apply (simp only: d4 d6 d10 decode_hex4 [OF hi'] decode_hex4 [OF lo'] recombine
                list.case option.case)
    apply (simp add: hi lo assms(3) cons_char_def)
    done
qed

lemma scanstring_escape:
  assumes "is_scalar c" and "scanstring tail = Some (s, rest)"
  shows "scanstring (escape_char c @ tail) = Some (c # s, rest)"
proof -
  from assms(1) have sc: "c < 1114112" "\<not> is_surrogate c"
    by (simp_all add: is_scalar_def)
  consider (short) "c \<in> {34, 92, 10, 13, 9, 12, 8}"
    | (plain) "c \<notin> {34, 92, 10, 13, 9, 12, 8}" "32 \<le> c" "c \<le> 126"
    | (bmp) "c \<notin> {34, 92, 10, 13, 9, 12, 8}" "\<not> (32 \<le> c \<and> c \<le> 126)" "c < 65536"
    | (astral) "65536 \<le> c"
    by fastforce
  then show ?thesis
  proof cases
    case short
    then show ?thesis by (rule scanstring_short_escape) (rule assms(2))
  next
    case plain
    then show ?thesis by (rule scanstring_plain) (rule assms(2))
  next
    case bmp
    then show ?thesis using sc(2) assms(2) by (rule scanstring_bmp)
  next
    case astral
    then show ?thesis using sc(1) assms(2) by (rule scanstring_astral)
  qed
qed

lemma scanstring_encoded:
  "list_all is_scalar s \<Longrightarrow> scanstring (concat (map escape_char s) @ 34 # rest) = Some (s, rest)"
  by (induction s) (simp_all add: scanstring_escape)


lemma join_Cons: "join sep (x # xs) = x @ concat (map (\<lambda>y. sep @ y) xs)"
  by (induction xs arbitrary: x) simp_all

lemma decode_Nil:
  "decode R m st [] = (case m of Finished v \<Rightarrow> Inr v | _ \<Rightarrow> Inl JSONDecodeError)"
  by (simp add: decode.simps)

lemma decode_ws: "is_ws c \<Longrightarrow> decode R m st (c # cs) = decode R m st cs"
  using decode.simps [of R m st "c # cs"] decode.simps [of R m st cs] by simp

lemma decode_item:
  "\<not> is_ws c \<Longrightarrow>
   decode R m st (c # cs)
   = (case advance R m st (c # cs) of
        Inl e \<Rightarrow> Inl e
      | Inr (m', st', rest) \<Rightarrow> decode R m' st' rest)"
  by (subst decode.simps) simp

lemmas decode_simps = decode_Nil decode_ws decode_item

lemma decode_string:
  assumes "list_all is_scalar s" and "m = Value \<or> m = FirstElem"
  shows "decode R m (Arr acc # st) (encode_string s @ rest)
         = decode R Next (Arr (acc @ [JStr s]) # st) rest"
proof -
  have "scan_once R (Arr acc # st) (34 # concat (map escape_char s) @ 34 # rest)
        = Inr (Next, Arr (acc @ [JStr s]) # st, rest)"
    by (simp add: scan_once_def scanstring_encoded [OF assms(1)])
  with assms(2) show ?thesis
    by (auto simp: encode_string_def decode_item is_ws_def)
qed

lemma decode_items:
  assumes "list_all (list_all is_scalar) xs"
  shows "decode R Next [Arr acc]
           (concat (map (\<lambda>y. (44 # newline_indent 1) @ encode_string y) xs) @ rest)
         = decode R Next [Arr (acc @ map JStr xs)] rest"
  using assms
proof (induction xs arbitrary: acc)
  case Nil
  show ?case by simp
next
  case (Cons x xs)
  from Cons.prems have x: "list_all is_scalar x" and xs: "list_all (list_all is_scalar) xs"
    by simp_all
  have "decode R Next [Arr acc] ((44 # newline_indent 1) @ encode_string x @ tl)
        = decode R Next [Arr (acc @ [JStr x])] tl" for tl
    by (simp add: decode_item decode_ws is_ws_def newline_indent_def decode_string [OF x])
  with Cons.IH [OF xs, of "acc @ [JStr x]"] show ?case
    by simp
qed

lemma decode_closing:
  "decode R Next [Arr acc] (newline_indent 0 @ [93]) = Inr (JArr acc)"
  by (simp add: newline_indent_def decode_simps is_ws_def)

lemma loads_dumps_strings:
  assumes "list_all (list_all is_scalar) xs"
  shows "json_loads R (json_dumps R' (JArr (map JStr xs))) = Inr (JArr (map JStr xs))"
proof (cases xs)
  case Nil
  then show ?thesis
    by (simp add: json_loads_def json_dumps_def decode_simps is_ws_def scan_once_def
          open_container_def)
next
  case (Cons x xs')
  from assms Cons have x: "list_all is_scalar x" and xs: "list_all (list_all is_scalar) xs'"
    by simp_all
  have shape: "json_dumps R' (JArr (map JStr (x # xs')))
              = 91 # newline_indent 1 @ encode_string x
                @ concat (map (\<lambda>y. (44 # newline_indent 1) @ encode_string y) xs')
                @ newline_indent 0 @ [93]"
    by (simp add: json_dumps_def join_Cons comp_def)
  have start: "decode R Value [] (91 # newline_indent 1 @ cs) = decode R FirstElem [Arr []] cs" for cs
    by (simp add: decode_item decode_ws is_ws_def scan_once_def open_container_def
          newline_indent_def)
  let ?items = "concat (map (\<lambda>y. (44 # newline_indent 1) @ encode_string y) xs')"
  have "decode R Value [] (json_dumps R' (JArr (map JStr (x # xs'))))
        = decode R FirstElem [Arr []] (encode_string x @ ?items @ newline_indent 0 @ [93])"
    unfolding shape by (rule start)
  also have "\<dots> = decode R Next [Arr ([] @ [JStr x])] (?items @ newline_indent 0 @ [93])"
    by (rule decode_string [OF x]) simp
  also have "\<dots> = decode R Next [Arr (([] @ [JStr x]) @ map JStr xs')] (newline_indent 0 @ [93])"
    by (rule decode_items [OF xs])
  also have "\<dots> = Inr (JArr (([] @ [JStr x]) @ map JStr xs'))"
    by (rule decode_closing)
  finally show ?thesis
    by (simp add: Cons json_loads_def)
qed

section \<open>What \<open>print\<close> writes\<close>

lemma bind_Inl [simp]: "bind (Inl e) f = Inl e"
  by (simp add: bind_def)

lemma bind_Inr [simp]: "bind (Inr x) f = f x"
  by (simp add: bind_def)

lemma surrogate_no_space: "is_surrogate c \<Longrightarrow> \<not> is_space c"
  by (auto simp: is_surrogate_def is_space_def)

lemma list_ex_dropWhile:
  assumes "\<And>c. P c \<Longrightarrow> \<not> Q c"
  shows "list_ex P (dropWhile Q s) = list_ex P s"
  using assms by (induction s) auto

lemma refused_strip: "list_ex (refused R) (strip s) = list_ex (refused R) s"
proof -
  have "list_ex (refused R) (rev xs) = list_ex (refused R) xs" for xs
    by (simp add: list_ex_iff)
  moreover have "\<not> is_space c" if "refused R c" for c
    using that by (simp add: refused_def surrogate_no_space)
  ultimately show ?thesis
    by (simp add: strip_def list_ex_dropWhile)
qed

lemma refused_surrogate: "list_ex (refused R) s \<Longrightarrow> list_ex is_surrogate s"
  by (auto simp: list_ex_iff refused_def)

lemma printable_text: "\<not> list_ex is_surrogate s \<Longrightarrow> \<not> list_ex (refused R) s"
  using refused_surrogate by blast

lemma print_analysis_line:
  "py_print R (analysis_line jd reply)
   = (if list_ex (refused R) (format_value (title jd) @ reply)
      then Inl UnicodeEncodeError else Inr ())"
  by (simp add: py_print_def analysis_line_def refused_strip refused_def is_surrogate_def)

lemma analyze_reply:
  assumes "post (api_url k) (payload jd) = Inr resp"
    and "\<not> (400 \<le> status_code resp \<and> status_code resp < 600)"
    and "json_result resp = Inr result"
    and "text_response result = Inr (JStr reply)"
  shows "analyze_with_gemini R post jd k
         = (if list_ex (refused R) (format_value (title jd) @ reply)
            then Inl UnicodeEncodeError
            else Inr (sublist (lit ''YES'') (upper R reply)))"
  using assms
  by (auto simp: analyze_with_gemini_def analyze_body_def raise_for_status_def
        print_analysis_line simp del: list_ex_append)

lemma analyze_printable_reply:
  assumes "post (api_url k) (payload jd) = Inr resp"
    and "\<not> (400 \<le> status_code resp \<and> status_code resp < 600)"
    and "json_result resp = Inr result"
    and "text_response result = Inr (JStr reply)"
    and "\<not> list_ex is_surrogate (format_value (title jd))"
    and "\<not> list_ex is_surrogate reply"
  shows "analyze_with_gemini R post jd k = Inr (sublist (lit ''YES'') (upper R reply))"
proof -
  from assms(5,6) have "\<not> list_ex (refused R) (format_value (title jd) @ reply)"
    by (intro printable_text) simp
  with analyze_reply [where post = post and R = R, OF assms(1-4)] show ?thesis
    by (simp only: if_False)
qed

section \<open>The loop over the candidate links\<close>

lemma bind_eq_Inr: "bind m f = Inr y \<longleftrightarrow> (\<exists>x. m = Inr x \<and> f x = Inr y)"
  by (cases m) simp_all

lemma make_job_details_link: "make_job_details R pg url = Inr jd \<Longrightarrow> link jd = url"
  by (auto simp: make_job_details_def bind_eq_Inr split: option.splits)

lemma process_link_shape:
  "(\<exists>e. process_link W k t i url = ([Fetch url], Inl e))
   \<or> (\<exists>jd r. link jd = url \<and> r \<noteq> Inr True
          \<and> process_link W k t i url = ([Fetch url, Classify jd], r))
   \<or> (\<exists>jd r. link jd = url \<and> (r = Inr True \<or> (\<exists>e. r = Inl e))
          \<and> process_link W k t i url = ([Fetch url, Classify jd, NotifyJob jd], r))"
proof (cases "get_page W i url")
  case (Inl e)
  then show ?thesis by (simp add: process_link_def)
next
  case pg: (Inr pg)
  show ?thesis
  proof (cases "make_job_details (python W) pg url")
    case (Inl e)
    with pg show ?thesis by (simp add: process_link_def)
  next
    case jd: (Inr jd)
    from make_job_details_link [OF jd] have l: "link jd = url" .
    show ?thesis
    proof (cases "analyze_with_gemini (python W) (gemini_post W i) jd k")
      case (Inl e)
      with pg jd l show ?thesis by (auto simp: process_link_def)
    next
      case (Inr verdict)
      with pg jd l show ?thesis
        by (cases "send_ntfy_notification (python W) (ntfy_post W i) jd t False")
           (auto simp: process_link_def)
    qed
  qed
qed

lemma process_link_subject:
  "e \<in> set (fst (process_link W k t i url)) \<Longrightarrow> subject e = Some url"
  using process_link_shape [of W k t i url] by auto

lemma process_link_no_final:
  "e \<in> set (fst (process_link W k t i url)) \<Longrightarrow> \<not> is_notify_status e \<and> \<not> is_save e"
  using process_link_shape [of W k t i url] by auto

lemma fst_process_links_Cons:
  "fst (process_links W k t i (url # links))
   = fst (process_link W k t i url) @ fst (process_links W k t (Suc i) links)"
  by (simp split: prod.splits)

lemma snd_process_links_Cons:
  "snd (process_links W k t i (url # links))
   = (if snd (process_link W k t i url) = Inr True then [url] else [])
     @ snd (process_links W k t (Suc i) links)"
  by (simp split: prod.splits)

lemmas process_links_Cons = fst_process_links_Cons snd_process_links_Cons

lemma process_links_append:
  "fst (process_links W k t i (xs @ ys))
     = fst (process_links W k t i xs) @ fst (process_links W k t (i + length xs) ys)"
  "snd (process_links W k t i (xs @ ys))
     = snd (process_links W k t i xs) @ snd (process_links W k t (i + length xs) ys)"
  by (induction xs arbitrary: i) (simp_all add: process_links_Cons del: process_links.simps(2))

lemma process_links_subject:
  "e \<in> set (fst (process_links W k t i links)) \<Longrightarrow> \<exists>url \<in> set links. subject e = Some url"
proof (induction links arbitrary: i)
  case Nil
  then show ?case by simp
next
  case (Cons url links)
  then show ?case
    by (auto simp: process_links_Cons simp del: process_links.simps(2)
             dest: process_link_subject)
qed

lemma process_links_no_final:
  "e \<in> set (fst (process_links W k t i links)) \<Longrightarrow> \<not> is_notify_status e \<and> \<not> is_save e"
proof (induction links arbitrary: i)
  case Nil
  then show ?case by simp
next
  case (Cons url links)
  then show ?case
    by (auto simp: process_links_Cons simp del: process_links.simps(2)
             dest: process_link_no_final)
qed

lemma new_jobs_subseq: "subseq (snd (process_links W k t i links)) links"
  by (induction links arbitrary: i)
     (auto simp: process_links_Cons simp del: process_links.simps(2))

lemma new_jobs_subset: "set (snd (process_links W k t i links)) \<subseteq> set links"
  by (induction links arbitrary: i)
     (auto simp: process_links_Cons simp del: process_links.simps(2))

lemma new_jobs_distinct: "distinct links \<Longrightarrow> distinct (snd (process_links W k t i links))"
proof (induction links arbitrary: i)
  case Nil
  then show ?case by simp
next
  case (Cons url links)
  with new_jobs_subset [of W k t "Suc i" links] show ?case
    by (auto simp: process_links_Cons simp del: process_links.simps(2))
qed

lemma candidate_Some:
  assumes "candidate R p href = Inr (Some url)"
  shows "prefix (lit ''/url?q='') href \<and> first_q R href = Some url \<and> url \<noteq> []
         \<and> \<not> sublist (lit ''google.com'') url \<and> py_in url p = Inr False"
  using assms
  by (auto simp: candidate_def bind_eq_Inr split: if_splits option.splits)

lemma find_links_sound:
  "find_links R p hrefs = Inr links \<Longrightarrow> url \<in> set links \<Longrightarrow>
     url \<noteq> [] \<and> \<not> sublist (lit ''google.com'') url \<and> py_in url p = Inr False"
proof (induction hrefs arbitrary: links)
  case Nil
  then show ?case by simp
next
  case (Cons href hrefs)
  from Cons.prems(1) obtain c rest where c: "candidate R p href = Inr c"
    and rest: "find_links R p hrefs = Inr rest"
    and links: "links = (case c of None \<Rightarrow> rest | Some u \<Rightarrow> u # rest)"
    by (auto simp: bind_eq_Inr)
  show ?case
  proof (cases "url \<in> set rest")
    case True
    with Cons.IH [OF rest] show ?thesis by simp
  next
    case False
    with links Cons.prems(2) have "c = Some url" by (cases c) auto
    with candidate_Some [of R p href url] c show ?thesis by simp
  qed
qed

lemma candidate_list: "\<exists>c. candidate R (JArr vs) href = Inr c"
  by (simp add: candidate_def split: option.splits)

lemma find_links_list: "\<exists>links. find_links R (JArr vs) hrefs = Inr links"
proof (induction hrefs)
  case Nil
  show ?case by simp
next
  case (Cons href hrefs)
  with candidate_list [of R vs href] show ?case by auto
qed

lemma find_links_rerun:
  assumes "find_links R (JArr vs) hrefs = Inr links"
    and "set vs \<subseteq> set vs'" and "JStr ` set links \<subseteq> set vs'"
  shows "find_links R (JArr vs') hrefs = Inr []"
  using assms
proof (induction hrefs arbitrary: links)
  case Nil
  show ?case by simp
next
  case (Cons href hrefs)
  from Cons.prems(1) obtain c rest where c: "candidate R (JArr vs) href = Inr c"
    and rest: "find_links R (JArr vs) hrefs = Inr rest"
    and links: "links = (case c of None \<Rightarrow> rest | Some u \<Rightarrow> u # rest)"
    by (auto simp: bind_eq_Inr)
  from links Cons.prems(3) have sub: "JStr ` set rest \<subseteq> set vs'"
    by (cases c) auto
  have "candidate R (JArr vs') href = Inr None"
  proof (cases c)
    case None
    with c Cons.prems(2) show ?thesis
      by (auto simp: candidate_def split: if_splits option.splits)
  next
    case (Some u)
    with links Cons.prems(3) have "JStr u \<in> set vs'" by auto
    with candidate_Some [of R "JArr vs" href u] c Some show ?thesis
      by (simp add: candidate_def)
  qed
  with Cons.IH [OF rest Cons.prems(2) sub] show ?case by simp
qed

lemma main_reaches_finish:
  assumes "GEMINI_API_KEY W = Some k" "k \<noteq> []" "NTFY_TOPIC W = Some t" "t \<noteq> []"
    and "get_processed_jobs (python W) (PROCESSED_JOBS_FILE W) = Inr (JArr vs)"
    and "google_search W = Inr hrefs"
  shows "\<exists>links. find_links (python W) (JArr vs) hrefs = Inr links
           \<and> main W = finish W t (JArr vs) (length links) (process_links W k t 0 links)"
proof -
  from find_links_list obtain links where "find_links (python W) (JArr vs) hrefs = Inr links"
    by blast
  with assms show ?thesis by (simp add: main_def)
qed

section \<open>The example run\<close>

lemma example_load:
  "get_processed_jobs (python example_world) (PROCESSED_JOBS_FILE example_world)
   = Inr (JArr [JStr job1])"
  using loads_dumps_strings [of "[job1]" ascii_runtime ascii_runtime]
  by (simp add: example_world_def get_processed_jobs_def json_load_def job1_def is_scalar_def
        is_surrogate_def)

lemma q_job1: "first_q ascii_runtime href1 = Some job1"
  by (simp add: first_q_def query_def clean_url_def after_scheme_def parse_qsl_def
        split_on.simps parse_field_def List.map_filter_simps unquote_def plus_to_space_def
        job1_def href1_def is_alpha_def)

lemma q_job2: "first_q ascii_runtime href2 = Some job2"
  by (simp add: first_q_def query_def clean_url_def after_scheme_def parse_qsl_def
        split_on.simps parse_field_def List.map_filter_simps unquote_def plus_to_space_def
        job2_def href2_def is_alpha_def)

lemma no_google1: "\<not> sublist (lit ''google.com'') job1"
  by (simp add: job1_def sublist_code)

lemma no_google2: "\<not> sublist (lit ''google.com'') job2"
  by (simp add: job2_def sublist_code)

lemma example_links:
  "find_links ascii_runtime (JArr [JStr job1]) [href1, href2] = Inr [job2]"
proof -
  have "job1 \<noteq> job2" "job1 \<noteq> []" "job2 \<noteq> []" by (simp_all add: job1_def job2_def)
  moreover have "prefix (lit ''/url?q='') href1" "prefix (lit ''/url?q='') href2"
    by (simp_all add: href1_def href2_def)
  ultimately show ?thesis
    by (simp add: candidate_def q_job1 q_job2 no_google1 [simplified] no_google2 [simplified])
qed

lemma example_details: "make_job_details ascii_runtime example_page job2 = Inr example_job"
  by (simp add: make_job_details_def example_page_def example_job_def hostname_def netloc_def
        clean_url_def after_scheme_def is_alpha_def is_scheme_char_def is_digit_def
        is_delim_def rpartition_at_def ascii_lower_def job2_def is_space_def Let_def)

lemma example_reply: "text_response (reply_json s) = Inr (JStr s)"
  by (simp add: text_response_def reply_json_def)


lemma example_title: "\<not> list_ex is_surrogate (format_value (title example_job))"
  by (simp add: example_job_def format_value_def is_surrogate_def)

lemma example_notification:
  assumes "\<And>r. post r = Inr ()"
  shows "send_ntfy_notification R post example_job t False = Inr ()"
  by (simp add: send_ntfy_notification_def assms example_job_def py_print_def format_value_def
        refused_def is_surrogate_def)

lemma example_verdict:
  "analyze_with_gemini ascii_runtime (gemini_post example_world 0) example_job (lit ''k'') = Inr True"
proof -
  have "analyze_with_gemini ascii_runtime (gemini_post example_world 0) example_job (lit ''k'')
        = Inr (sublist (lit ''YES'') (upper ascii_runtime (lit ''YES, this matches'')))"
    by (rule analyze_printable_reply
          [where resp = "\<lparr>status_code = 200,
                           json_result = Inr (reply_json (lit ''YES, this matches''))\<rparr>"
             and result = "reply_json (lit ''YES, this matches'')"])
       (simp_all add: example_world_def example_reply example_title is_surrogate_def)
  then show ?thesis
    by (simp add: upper_def upper_char_def sublist_code)
qed

lemma example_step:
  "process_link example_world (lit ''k'') (lit ''jobs'') 0 job2
   = ([Fetch job2, Classify example_job, NotifyJob example_job], Inr True)"
proof -
  have w: "python example_world = ascii_runtime" "get_page example_world 0 job2 = Inr example_page"
    by (simp_all add: example_world_def)
  have n: "send_ntfy_notification ascii_runtime (ntfy_post example_world 0) example_job
             (lit ''jobs'') False = Inr ()"
    by (rule example_notification) (simp add: example_world_def)
  show ?thesis
    unfolding process_link_def w
    by (simp only: example_details example_verdict n sum.case if_True)
qed

lemma example_main:
  "main example_world
   = \<lparr>events = [Fetch job2, Classify example_job, NotifyJob example_job,
                 Save (JArr [JStr job1, JStr job2])],
      new_jobs_found = [job2],
      file_after = Text (json_dumps ascii_runtime (JArr [JStr job1, JStr job2])),
      outcome = Done\<rparr>"
proof -
  have w: "GEMINI_API_KEY example_world = Some (lit ''k'')" "lit ''k'' \<noteq> ([]::str)"
    "NTFY_TOPIC example_world = Some (lit ''jobs'')" "lit ''jobs'' \<noteq> ([]::str)"
    "google_search example_world = Inr [href1, href2]"
    by (simp_all add: example_world_def)
  have p: "python example_world = ascii_runtime" by (simp add: example_world_def)
  from main_reaches_finish [OF w(1-4) example_load w(5)] example_links
  have "main example_world
        = finish example_world (lit ''jobs'') (JArr [JStr job1]) (length [job2])
            (process_links example_world (lit ''k'') (lit ''jobs'') 0 [job2])"
    by (auto simp: p)
  also have "process_links example_world (lit ''k'') (lit ''jobs'') 0 [job2]
             = ([Fetch job2, Classify example_job, NotifyJob example_job], [job2])"
    unfolding process_links.simps example_step by simp
  finally show ?thesis
    by (simp add: finish_def save_processed_jobs_def p example_world_def)
qed

section \<open>The classifier's verdict\<close>

lemma upper_append: "upper R (a @ b) = upper R a @ upper R b"
  by (simp add: upper_def)

lemma process_link_verdict:
  assumes "get_page W i url = Inr pg"
    and "make_job_details (python W) pg url = Inr jd"
    and "analyze_with_gemini (python W) (gemini_post W i) jd k = Inr verdict"
  shows "fst (process_link W k t i url)
         = [Fetch url, Classify jd] @ (if verdict then [NotifyJob jd] else [])"
  using assms by (simp add: process_link_def split: sum.splits)

lemma process_link_raised:
  assumes "get_page W i url = Inr pg"
    and "make_job_details (python W) pg url = Inr jd"
    and "analyze_with_gemini (python W) (gemini_post W i) jd k = Inl e"
  shows "process_link W k t i url = ([Fetch url, Classify jd], Inl e)"
  using assms by (simp add: process_link_def)

lemma yes_surrogate_reply:
  "sublist (lit ''YES'') (upper ascii_runtime yes_surrogate)"
  "list_ex (refused ascii_runtime) (format_value (title example_job) @ yes_surrogate)"
  by (simp_all add: yes_surrogate_def upper_def upper_char_def ascii_runtime_def sublist_code
        refused_def is_surrogate_def)

text \<open>
  C1 as stated fails: the reply \<open>YES\<close> followed by the lone surrogate U+D800 has
  \<open>YES\<close> in its upper case, but the line that \<open>analyze_with_gemini\<close> prints
  before it computes the verdict cannot be encoded. The function raises
  \<open>UnicodeEncodeError\<close>, the loop catches it, and no notification is called for the
  link.
\<close>

theorem reply_with_surrogate_raises:
  "text_response (reply_json yes_surrogate) = Inr (JStr yes_surrogate)
   \<and> sublist (lit ''YES'') (upper (python surrogate_world) yes_surrogate)
   \<and> analyze_with_gemini (python surrogate_world) (gemini_post surrogate_world 0) example_job
        (lit ''k'') = Inl UnicodeEncodeError
   \<and> process_link surrogate_world (lit ''k'') (lit ''jobs'') 0 job2
       = ([Fetch job2, Classify example_job], Inl UnicodeEncodeError)"
proof -
  let ?resp = "\<lparr>status_code = 200, json_result = Inr (reply_json yes_surrogate)\<rparr>"
  have p: "python surrogate_world = ascii_runtime"
    and g: "get_page surrogate_world 0 job2 = Inr example_page"
    and r: "gemini_post surrogate_world 0 (api_url (lit ''k'')) (payload example_job) = Inr ?resp"
    by (simp_all add: surrogate_world_def example_world_def)
  have d: "make_job_details (python surrogate_world) example_page job2 = Inr example_job"
    by (simp only: p example_details)
  have "analyze_with_gemini (python surrogate_world) (gemini_post surrogate_world 0) example_job
          (lit ''k'')
        = (if list_ex (refused (python surrogate_world))
                (format_value (title example_job) @ yes_surrogate)
           then Inl UnicodeEncodeError
           else Inr (sublist (lit ''YES'') (upper (python surrogate_world) yes_surrogate)))"
    by (rule analyze_reply [where post = "gemini_post surrogate_world 0" and resp = ?resp
                               and result = "reply_json yes_surrogate"])
       (rule r, simp, simp, rule example_reply)
  with yes_surrogate_reply(2)
  have v: "analyze_with_gemini (python surrogate_world) (gemini_post surrogate_world 0)
             example_job (lit ''k'') = Inl UnicodeEncodeError"
    by (simp only: p if_True)
  from process_link_raised [OF g d v] v yes_surrogate_reply(1) show ?thesis
    by (simp add: example_reply p)
qed

text \<open>
  C1, amended. Whenever the classifier service answers with a reply string:
  \<open>analyze_with_gemini\<close> raises \<open>UnicodeEncodeError\<close> if the title of the job or
  the reply holds a surrogate code point that standard output refuses, and otherwise its
  verdict is true exactly when the upper-cased reply contains \<open>YES\<close>. In the loop,
  the job notification is called for a fetched candidate exactly when the upper-cased
  reply contains \<open>YES\<close> and title and reply hold no such code point: never when the
  reply is \<open>NO\<close>, and, for a title and a reply without surrogates, always when the
  reply contains a piece whose upper case is \<open>YES\<close>, whatever surrounds it.
\<close>

theorem verdict_of_a_printable_reply:
  assumes "get_page W i url = Inr pg"
    and "make_job_details (python W) pg url = Inr jd"
    and "gemini_post W i (api_url k) (payload jd) = Inr resp"
    and "\<not> (400 \<le> status_code resp \<and> status_code resp < 600)"
    and "json_result resp = Inr result"
    and "text_response result = Inr (JStr reply)"
  shows "analyze_with_gemini (python W) (gemini_post W i) jd k
           = (if list_ex (refused (python W)) (format_value (title jd) @ reply)
              then Inl UnicodeEncodeError
              else Inr (sublist (lit ''YES'') (upper (python W) reply)))
         \<and> (NotifyJob jd \<in> set (fst (process_link W k t i url))
              \<longleftrightarrow> sublist (lit ''YES'') (upper (python W) reply)
                  \<and> \<not> list_ex (refused (python W)) (format_value (title jd) @ reply))
         \<and> (reply = lit ''NO'' \<longrightarrow> \<not> list_ex is_notify_job (fst (process_link W k t i url)))
         \<and> (\<forall>a y b. reply = a @ y @ b \<and> upper (python W) y = lit ''YES''
                  \<and> \<not> list_ex is_surrogate (format_value (title jd) @ reply)
                \<longrightarrow> NotifyJob jd \<in> set (fst (process_link W k t i url)))"
proof -
  let ?v = "sublist (lit ''YES'') (upper (python W) reply)"
  let ?s = "list_ex (refused (python W)) (format_value (title jd) @ reply)"
  have v: "analyze_with_gemini (python W) (gemini_post W i) jd k
           = (if ?s then Inl UnicodeEncodeError else Inr ?v)"
    using assms(3-6) by (rule analyze_reply)
  have ev: "fst (process_link W k t i url)
            = [Fetch url, Classify jd] @ (if \<not> ?s \<and> ?v then [NotifyJob jd] else [])"
  proof (cases ?s)
    case True
    with v have "analyze_with_gemini (python W) (gemini_post W i) jd k = Inl UnicodeEncodeError"
      by simp
    from process_link_raised [OF assms(1,2) this] True show ?thesis by simp
  next
    case False
    with v have "analyze_with_gemini (python W) (gemini_post W i) jd k = Inr ?v"
      by simp
    from process_link_verdict [OF assms(1,2) this] False show ?thesis by simp
  qed
  have no: "\<not> sublist (lit ''YES'') (upper (python W) (lit ''NO''))"
    by (simp add: upper_def upper_char_def sublist_code)
  have yes: "sublist (lit ''YES'') (upper (python W) (a @ y @ b))"
    if "upper (python W) y = lit ''YES''" for a y b
    unfolding upper_append that by (rule sublist_appendI)
  have printable: "\<not> ?s" if "\<not> list_ex is_surrogate (format_value (title jd) @ reply)"
    using that by (rule printable_text)
  have "NotifyJob jd \<in> set (fst (process_link W k t i url)) \<longleftrightarrow> ?v \<and> \<not> ?s"
    unfolding ev by auto
  moreover have "\<not> list_ex is_notify_job (fst (process_link W k t i url))" if "reply = lit ''NO''"
    unfolding ev using that no by auto
  moreover have "NotifyJob jd \<in> set (fst (process_link W k t i url))"
    if "reply = a @ y @ b \<and> upper (python W) y = lit ''YES''
        \<and> \<not> list_ex is_surrogate (format_value (title jd) @ reply)" for a y b
  proof -
    from that yes [of y a b] have ?v by simp
    moreover from that have "\<not> ?s" by (intro printable) blast
    ultimately show ?thesis unfolding ev by simp
  qed
  ultimately show ?thesis using v by blast
qed

theorem verdict_of_a_printable_reply_witness:
  "analyze_with_gemini (python example_world) (gemini_post example_world 0) example_job (lit ''k'')
     = Inr True
   \<and> NotifyJob example_job \<in> set (fst (process_link example_world (lit ''k'') (lit ''jobs'') 0 job2))
   \<and> \<not> list_ex is_notify_job (fst (process_link rejecting_world (lit ''k'') (lit ''jobs'') 0 job2))
   \<and> lit ''Well, yEs!'' = lit ''Well, '' @ lit ''yEs'' @ lit ''!''
   \<and> \<not> list_ex is_surrogate (format_value (title example_job) @ lit ''Well, yEs!'')
   \<and> NotifyJob example_job
       \<in> set (fst (process_link mixed_case_world (lit ''k'') (lit ''jobs'') 0 job2))"
proof -
  let ?resp = "\<lambda>s. \<lparr>status_code = 200, json_result = Inr (reply_json s)\<rparr>"
  have ok: "\<not> (400 \<le> status_code (?resp s) \<and> status_code (?resp s) < 600)"
    and js: "json_result (?resp s) = Inr (reply_json s)" for s
    by simp_all
  have e: "get_page example_world 0 job2 = Inr example_page"
    "make_job_details (python example_world) example_page job2 = Inr example_job"
    "gemini_post example_world 0 (api_url (lit ''k'')) (payload example_job)
       = Inr (?resp (lit ''YES, this matches''))"
    and ep: "python example_world = ascii_runtime"
    by (simp_all add: example_world_def example_details)
  have r: "get_page rejecting_world 0 job2 = Inr example_page"
    "make_job_details (python rejecting_world) example_page job2 = Inr example_job"
    "gemini_post rejecting_world 0 (api_url (lit ''k'')) (payload example_job)
       = Inr (?resp (lit ''NO''))"
    by (simp_all add: rejecting_world_def example_world_def example_details)
  have m: "get_page mixed_case_world 0 job2 = Inr example_page"
    "make_job_details (python mixed_case_world) example_page job2 = Inr example_job"
    "gemini_post mixed_case_world 0 (api_url (lit ''k'')) (payload example_job)
       = Inr (?resp (lit ''Well, yEs!''))"
    and mpy: "python mixed_case_world = ascii_runtime"
    by (simp_all add: mixed_case_world_def example_world_def example_details)
  have y: "sublist (lit ''YES'') (upper (python example_world) (lit ''YES, this matches''))"
    by (simp add: ep upper_def upper_char_def sublist_code)
  have ys: "\<not> list_ex (refused (python example_world))
                (format_value (title example_job) @ lit ''YES, this matches'')"
    by (rule printable_text) (simp add: example_job_def format_value_def is_surrogate_def)
  have u: "lit ''Well, yEs!'' = lit ''Well, '' @ lit ''yEs'' @ lit ''!''
           \<and> upper (python mixed_case_world) (lit ''yEs'') = lit ''YES''
           \<and> \<not> list_ex is_surrogate (format_value (title example_job) @ lit ''Well, yEs!'')"
    using example_title by (simp add: mpy upper_def upper_char_def is_surrogate_def)
  note ex = verdict_of_a_printable_reply [OF e ok js example_reply, of "lit ''jobs''"]
  from ex [THEN conjunct1] ys y
  have a1: "analyze_with_gemini (python example_world) (gemini_post example_world 0) example_job
              (lit ''k'') = Inr True"
    by (simp only: if_False)
  from ex [THEN conjunct2, THEN conjunct1] ys y
  have a2: "NotifyJob example_job
              \<in> set (fst (process_link example_world (lit ''k'') (lit ''jobs'') 0 job2))"
    by blast
  from verdict_of_a_printable_reply [OF r ok js example_reply, of "lit ''jobs''",
         THEN conjunct2, THEN conjunct2, THEN conjunct1, THEN mp, OF refl]
  have b: "\<not> list_ex is_notify_job (fst (process_link rejecting_world (lit ''k'') (lit ''jobs'') 0 job2))" .
  from verdict_of_a_printable_reply [OF m ok js example_reply, of "lit ''jobs''",
         THEN conjunct2, THEN conjunct2, THEN conjunct2, THEN spec, THEN spec, THEN spec,
         THEN mp, OF u]
  have c: "NotifyJob example_job
           \<in> set (fst (process_link mixed_case_world (lit ''k'') (lit ''jobs'') 0 job2))" .
  from a1 a2 b c u [THEN conjunct1] u [THEN conjunct2, THEN conjunct2] show ?thesis
    by (intro conjI) assumption+
qed

text \<open>
  C5. When the request to the classifier raises a \<open>RequestException\<close> (a
  transport error), or is answered with a status from 400 to 599 (which
  \<open>raise_for_status\<close> turns into an \<open>HTTPError\<close>), \<open>analyze_with_gemini\<close>
  returns the verdict false and raises nothing.
\<close>

theorem transport_failure_gives_false:
  assumes "(\<exists>e. post (api_url k) (payload jd) = Inl e \<and> is_request_exception e)
           \<or> (\<exists>r. post (api_url k) (payload jd) = Inr r
                  \<and> 400 \<le> status_code r \<and> status_code r < 600)"
  shows "analyze_with_gemini R post jd k = Inr False"
  using assms
  by (auto simp: analyze_with_gemini_def analyze_body_def raise_for_status_def)

theorem transport_failure_gives_false_witness:
  "analyze_with_gemini ascii_runtime (\<lambda>url body. Inl (RequestException Timeout)) example_job (lit ''k'')
     = Inr False
   \<and> analyze_with_gemini ascii_runtime
        (\<lambda>url body. Inr \<lparr>status_code = 503, json_result = Inr (reply_json (lit ''YES''))\<rparr>)
        example_job (lit ''k'') = Inr False"
  using transport_failure_gives_false
          [of "\<lambda>url body. Inl (RequestException Timeout)" "lit ''k''" example_job ascii_runtime]
        transport_failure_gives_false
          [of "\<lambda>url body. Inr \<lparr>status_code = 503, json_result = Inr (reply_json (lit ''YES''))\<rparr>"
              "lit ''k''" example_job ascii_runtime]
  by simp

section \<open>Errors while reading the reply\<close>

lemma text_response_empty_candidates:
  "map_of kvs (lit ''candidates'') = Some (JArr []) \<Longrightarrow> text_response (JObj kvs) = Inl IndexError"
  by (simp add: text_response_def)

lemma py_get_error: "py_get v k d = Inl e \<Longrightarrow> e = AttributeError"
  by (cases v) simp_all

lemma py_first_error: "py_first v = Inl e \<Longrightarrow> e = IndexError \<or> e = KeyError \<or> e = TypeError"
  by (cases v) (auto split: list.splits)

lemma text_response_error:
  assumes "text_response result = Inl e"
  shows "\<not> is_request_exception e"
proof -
  have g: "\<not> is_request_exception x" if "py_get v k d = Inl x" for v k d x
    using py_get_error [OF that] by simp
  have f: "\<not> is_request_exception x" if "py_first v = Inl x" for v x
    using py_first_error [OF that] by auto
  from assms show ?thesis
    unfolding text_response_def bind_def
    by (auto split: sum.splits dest: g f)
qed

text \<open>
  C10 as stated fails: when \<open>response.json()\<close> raises the
  \<open>JSONDecodeError\<close> of requests (2.27 and later), which is a
  \<open>RequestException\<close>, the handler of \<open>analyze_with_gemini\<close> catches it and the
  verdict is false.
\<close>

theorem invalid_json_body_gives_false:
  "analyze_with_gemini ascii_runtime
     (\<lambda>url body. Inr \<lparr>status_code = 200,
                       json_result = Inl (RequestException RequestsJSONDecodeError)\<rparr>)
     example_job (lit ''k'') = Inr False"
  by (simp add: analyze_with_gemini_def analyze_body_def raise_for_status_def)

text \<open>
  C10, amended. For a response with a status outside 400 to 599: an exception raised by
  \<open>response.json()\<close> becomes the verdict false when it is a \<open>RequestException\<close>
  and leaves \<open>analyze_with_gemini\<close> otherwise; an exception raised on the way to the
  reply text leaves \<open>analyze_with_gemini\<close>, as the \<open>IndexError\<close> of an empty
  \<open>candidates\<close> list does; and whatever \<open>analyze_with_gemini\<close> raises is caught by
  the loop, which ends the link after its fetch and its classification, with no
  notification and nothing appended.
\<close>

theorem only_request_errors_become_false:
  assumes "get_page W i url = Inr pg"
    and "make_job_details (python W) pg url = Inr jd"
    and "gemini_post W i (api_url k) (payload jd) = Inr resp"
    and "\<not> (400 \<le> status_code resp \<and> status_code resp < 600)"
  shows "(\<forall>e. json_result resp = Inl e \<longrightarrow>
            analyze_with_gemini (python W) (gemini_post W i) jd k
              = (if is_request_exception e then Inr False else Inl e))
       \<and> (\<forall>result e. json_result resp = Inr result \<and> text_response result = Inl e
            \<longrightarrow> analyze_with_gemini (python W) (gemini_post W i) jd k = Inl e)
       \<and> (\<forall>kvs. json_result resp = Inr (JObj kvs) \<and> map_of kvs (lit ''candidates'') = Some (JArr [])
            \<longrightarrow> analyze_with_gemini (python W) (gemini_post W i) jd k = Inl IndexError)
       \<and> (\<forall>e. analyze_with_gemini (python W) (gemini_post W i) jd k = Inl e
            \<longrightarrow> process_link W k t i url = ([Fetch url, Classify jd], Inl e))"
proof (intro conjI allI impI)
  fix e assume "json_result resp = Inl e"
  with assms(3,4) show "analyze_with_gemini (python W) (gemini_post W i) jd k
      = (if is_request_exception e then Inr False else Inl e)"
    by (auto simp: analyze_with_gemini_def analyze_body_def raise_for_status_def)
next
  fix result e assume a: "json_result resp = Inr result \<and> text_response result = Inl e"
  with text_response_error [of result e] have "\<not> is_request_exception e" by simp
  with a assms(3,4) show "analyze_with_gemini (python W) (gemini_post W i) jd k = Inl e"
    by (auto simp: analyze_with_gemini_def analyze_body_def raise_for_status_def)
next
  fix kvs assume "json_result resp = Inr (JObj kvs) \<and> map_of kvs (lit ''candidates'') = Some (JArr [])"
  with assms(3,4) text_response_empty_candidates [of kvs]
  show "analyze_with_gemini (python W) (gemini_post W i) jd k = Inl IndexError"
    by (auto simp: analyze_with_gemini_def analyze_body_def raise_for_status_def)
next
  fix e assume "analyze_with_gemini (python W) (gemini_post W i) jd k = Inl e"
  with assms(1,2) show "process_link W k t i url = ([Fetch url, Classify jd], Inl e)"
    by (simp add: process_link_def)
qed

theorem only_request_errors_become_false_witness:
  "analyze_with_gemini ascii_runtime
     (gemini_post (example_world\<lparr>gemini_post := \<lambda>i url body.
        Inr \<lparr>status_code = 200, json_result = Inr empty_candidates\<rparr>\<rparr>) 0)
     example_job (lit ''k'') = Inl IndexError
   \<and> process_link (example_world\<lparr>gemini_post := \<lambda>i url body.
        Inr \<lparr>status_code = 200, json_result = Inr empty_candidates\<rparr>\<rparr>)
        (lit ''k'') (lit ''jobs'') 0 job2
      = ([Fetch job2, Classify example_job], Inl IndexError)"
proof -
  let ?resp = "\<lparr>status_code = 200, json_result = Inr empty_candidates\<rparr>"
  let ?W = "example_world\<lparr>gemini_post := \<lambda>i url body. Inr ?resp\<rparr>"
  have h1: "get_page ?W 0 job2 = Inr example_page"
    and p: "python ?W = ascii_runtime"
    and h3: "gemini_post ?W 0 (api_url (lit ''k'')) (payload example_job) = Inr ?resp"
    by (simp_all add: example_world_def)
  have h2: "make_job_details (python ?W) example_page job2 = Inr example_job"
    by (simp only: p example_details)
  have h4: "\<not> (400 \<le> status_code ?resp \<and> status_code ?resp < 600)"
    by simp
  have c: "json_result ?resp = Inr (JObj [(lit ''candidates'', JArr [])])
           \<and> map_of [(lit ''candidates'', JArr [])] (lit ''candidates'') = Some (JArr [])"
    by (simp add: empty_candidates_def)
  from only_request_errors_become_false [OF h1 h2 h3 h4, of "lit ''jobs''"] c
  have "analyze_with_gemini (python ?W) (gemini_post ?W 0) example_job (lit ''k'') = Inl IndexError
        \<and> (analyze_with_gemini (python ?W) (gemini_post ?W 0) example_job (lit ''k'') = Inl IndexError
            \<longrightarrow> process_link ?W (lit ''k'') (lit ''jobs'') 0 job2
                  = ([Fetch job2, Classify example_job], Inl IndexError))"
    by blast
  then show ?thesis by (simp add: p)
qed

section \<open>Loading the state file\<close>

lemma scan_number_error: "scan_number R cs = Inl e \<Longrightarrow> e = ValueError"
  by (auto simp: scan_number_def split: option.splits prod.splits if_splits)

lemma deliver_error: "deliver v st rest = Inl e \<Longrightarrow> e = JSONDecodeError"
  by (cases "(v, st, rest)" rule: deliver.cases) auto

lemma close_error: "close c st rest = Inl e \<Longrightarrow> e = JSONDecodeError"
  by (cases "(c, st, rest)" rule: close.cases) (auto split: if_splits dest: deliver_error)

lemma scan_key_error: "scan_key st cs = Inl e \<Longrightarrow> e = JSONDecodeError"
  by (cases "(st, cs)" rule: scan_key.cases) (auto split: if_splits option.splits)

lemma scan_once_error:
  "scan_once R st cs = Inl e \<Longrightarrow> e = JSONDecodeError \<or> e = ValueError \<or> e = RecursionError"
  by (cases cs)
     (auto simp: scan_once_def open_container_def
           split: if_splits option.splits sum.splits
           dest: deliver_error scan_number_error)

lemma advance_error:
  "advance R m st cs = Inl e \<Longrightarrow> e = JSONDecodeError \<or> e = ValueError \<or> e = RecursionError"
  by (cases "(R, m, st, cs)" rule: advance.cases)
     (auto split: if_splits list.splits frame.splits
           dest: scan_once_error scan_key_error close_error)

lemma decode_error:
  "decode R m st cs = Inl e \<Longrightarrow> e = JSONDecodeError \<or> e = ValueError \<or> e = RecursionError"
proof (induction R m st cs rule: decode.induct)
  case (1 R m st cs)
  show ?case
  proof (cases "dropWhile is_ws cs")
    case Nil
    with "1.prems" show ?thesis
      by (auto simp: decode.simps [of R m st cs] split: mode.splits)
  next
    case (Cons c r)
    show ?thesis
    proof (cases "advance R m st (c # r)")
      case (Inl x)
      with Cons "1.prems" have "x = e"
        by (simp add: decode.simps [of R m st cs])
      with Inl advance_error [of R m st "c # r" e] show ?thesis by simp
    next
      case (Inr x)
      obtain m' st' rest where x: "x = (m', st', rest)" by (cases x)
      with Cons Inr "1.prems" have "decode R m' st' rest = Inl e"
        by (simp add: decode.simps [of R m st cs])
      with "1.IH" [OF Cons Inr [unfolded x] refl refl] show ?thesis by simp
    qed
  qed
qed

lemma loads_long_integer:
  assumes "640 < n" "0 < int_max_str_digits R" "int_max_str_digits R < n"
  shows "json_loads R (replicate n 49) = Inl ValueError"
proof -
  from assms(1) obtain k where n: "n = Suc k" by (cases n) auto
  have i: "scan_integer (49 # replicate k 49) = Some (49 # replicate k 49, [])"
    by (simp add: scan_integer_def is_digit_def)
  have "scan_number R (49 # replicate k 49) = Inl ValueError"
    using assms
    by (simp add: scan_number_def i scan_frac_def scan_exp_def too_many_digits_def is_digit_def n)
  then have "scan_once R [] (49 # replicate k 49) = Inl ValueError"
    by (simp add: scan_once_def)
  then show ?thesis
    by (simp add: json_loads_def n decode_item is_ws_def)
qed

lemma decode_too_deep:
  assumes "m = Value \<or> m = FirstElem" and "length st + k = Suc (Suc (nesting_limit R))"
    and "0 < k"
  shows "decode R m st (replicate k 91) = Inl RecursionError"
  using assms
proof (induction k arbitrary: m st)
  case 0
  then show ?case by simp
next
  case (Suc k)
  have a: "advance R m st (91 # replicate k 91)
           = open_container R FirstElem (Arr []) st (replicate k 91)"
    using Suc.prems(1) by (auto simp: scan_once_def)
  show ?case
  proof (cases "k = 0")
    case True
    with Suc.prems(2) have "nesting_limit R < length st" by simp
    with a show ?thesis
      by (simp add: decode_item is_ws_def open_container_def)
  next
    case False
    with Suc.prems(2) have "\<not> nesting_limit R < length st" by simp
    with a have "decode R m st (replicate (Suc k) 91)
                 = decode R FirstElem (Arr [] # st) (replicate k 91)"
      by (simp add: decode_item is_ws_def open_container_def)
    with Suc.IH [of FirstElem "Arr [] # st"] Suc.prems(2) False show ?thesis
      by simp
  qed
qed

lemma loads_too_deep:
  "json_loads R (replicate (Suc (Suc (nesting_limit R))) 91) = Inl RecursionError"
  unfolding json_loads_def by (rule decode_too_deep) simp_all

text \<open>
  C6 as stated fails: a state file that the process may not open makes
  \<open>get_processed_jobs\<close> raise \<open>PermissionError\<close>.
\<close>

theorem load_raises_when_denied: "get_processed_jobs ascii_runtime Denied = Inl PermissionError"
  by (simp add: get_processed_jobs_def json_load_def)

text \<open>
  C6, amended. \<open>get_processed_jobs\<close> returns the empty list when the file is
  missing and when the decoder raises \<open>JSONDecodeError\<close> on its text, and the decoded
  value when the decoder returns one; in particular it returns the list of strings that
  \<open>save_processed_jobs\<close> wrote. It raises in every other case: when the file cannot
  be opened (\<open>PermissionError\<close>) or is no text (\<open>UnicodeDecodeError\<close>), and when
  the decoder raises one of its two other exceptions, \<open>ValueError\<close> for an integer
  literal of more digits than the interpreter converts (as a text of that many digits
  \<open>1\<close>) and \<open>RecursionError\<close> for containers nested deeper than the interpreter
  follows (as a text of that many brackets).
\<close>

theorem load_outcomes:
  "get_processed_jobs R Missing = Inr (JArr [])
   \<and> (\<forall>s. get_processed_jobs R (Text s)
             = (case json_loads R s of
                  Inl e \<Rightarrow> if e = JSONDecodeError then Inr (JArr []) else Inl e
                | Inr v \<Rightarrow> Inr v))
   \<and> (\<forall>s e. json_loads R s = Inl e
         \<longrightarrow> e = JSONDecodeError \<or> e = ValueError \<or> e = RecursionError)
   \<and> (\<forall>R' xs. list_all (list_all is_scalar) xs \<longrightarrow>
         get_processed_jobs R (Text (json_dumps R' (JArr (map JStr xs)))) = Inr (JArr (map JStr xs)))
   \<and> get_processed_jobs R Denied = Inl PermissionError
   \<and> get_processed_jobs R Undecodable = Inl UnicodeDecodeError
   \<and> (\<forall>n. 640 < n \<and> 0 < int_max_str_digits R \<and> int_max_str_digits R < n
         \<longrightarrow> get_processed_jobs R (Text (replicate n 49)) = Inl ValueError)
   \<and> get_processed_jobs R (Text (replicate (Suc (Suc (nesting_limit R))) 91))
       = Inl RecursionError"
proof -
  have e: "json_loads R s = Inl e
           \<Longrightarrow> e = JSONDecodeError \<or> e = ValueError \<or> e = RecursionError" for s e
    unfolding json_loads_def by (rule decode_error)
  have t: "get_processed_jobs R (Text s)
           = (case json_loads R s of
                Inl e \<Rightarrow> if e = JSONDecodeError then Inr (JArr []) else Inl e
              | Inr v \<Rightarrow> Inr v)" for s
    using e [of s] by (auto simp: get_processed_jobs_def json_load_def split: sum.splits)
  have w: "get_processed_jobs R (Text (json_dumps R' (JArr (map JStr xs))))
           = Inr (JArr (map JStr xs))" if "list_all (list_all is_scalar) xs" for R' xs
    by (simp add: t loads_dumps_strings [OF that])
  have i: "get_processed_jobs R (Text (replicate n 49)) = Inl ValueError"
    if "640 < n \<and> 0 < int_max_str_digits R \<and> int_max_str_digits R < n" for n
    using that by (simp add: t loads_long_integer)
  have d: "get_processed_jobs R (Text (replicate (Suc (Suc (nesting_limit R))) 91))
           = Inl RecursionError"
    by (simp only: t loads_too_deep) simp
  have o: "get_processed_jobs R Missing = Inr (JArr [])"
    "get_processed_jobs R Denied = Inl PermissionError"
    "get_processed_jobs R Undecodable = Inl UnicodeDecodeError"
    by (simp_all add: get_processed_jobs_def json_load_def)
  from t e w i d o show ?thesis by blast
qed

theorem load_outcomes_witness:
  "list_all (list_all is_scalar) [job1]
   \<and> get_processed_jobs ascii_runtime (Text (json_dumps ascii_runtime (JArr (map JStr [job1]))))
       = Inr (JArr (map JStr [job1]))
   \<and> get_processed_jobs ascii_runtime (Text (lit ''not json'')) = Inr (JArr [])
   \<and> get_processed_jobs ascii_runtime (Text (replicate 4301 49)) = Inl ValueError
   \<and> get_processed_jobs ascii_runtime (Text (replicate 992 91)) = Inl RecursionError"
proof -
  have s: "list_all (list_all is_scalar) [job1]"
    by (simp add: job1_def is_scalar_def is_surrogate_def)
  have j: "json_loads ascii_runtime (lit ''not json'') = Inl JSONDecodeError"
    by (simp add: json_loads_def decode_simps is_ws_def scan_once_def scan_number_def
          scan_integer_def)
  have l: "(640::nat) < 4301 \<and> 0 < int_max_str_digits ascii_runtime
           \<and> int_max_str_digits ascii_runtime < 4301"
    and n: "Suc (Suc (nesting_limit ascii_runtime)) = 992"
    by (simp_all add: ascii_runtime_def)
  from load_outcomes [of ascii_runtime] s
  have a: "get_processed_jobs ascii_runtime (Text (json_dumps ascii_runtime (JArr (map JStr [job1]))))
           = Inr (JArr (map JStr [job1]))"
    by blast
  from load_outcomes [of ascii_runtime]
  have "get_processed_jobs ascii_runtime (Text (lit ''not json''))
        = (case json_loads ascii_runtime (lit ''not json'') of
             Inl e \<Rightarrow> if e = JSONDecodeError then Inr (JArr []) else Inl e
           | Inr v \<Rightarrow> Inr v)"
    by blast
  with j have b: "get_processed_jobs ascii_runtime (Text (lit ''not json'')) = Inr (JArr [])"
    by simp
  from load_outcomes [of ascii_runtime] l
  have c: "get_processed_jobs ascii_runtime (Text (replicate 4301 49)) = Inl ValueError"
    by blast
  from load_outcomes [of ascii_runtime]
  have d: "get_processed_jobs ascii_runtime (Text (replicate 992 91)) = Inl RecursionError"
    unfolding n by blast
  from s a b c d show ?thesis by blast
qed

section \<open>Loading and saving again\<close>

lemma loads_slash: "json_loads R [91, 34, 92, 47, 34, 93] = Inr (JArr [JStr [47]])"
  by (simp add: json_loads_def decode_simps is_ws_def scan_once_def open_container_def
        backslash_def cons_char_def)

lemma load_slash: "get_processed_jobs R escaped_slash_file = Inr (JArr [JStr [47]])"
  by (simp add: escaped_slash_file_def get_processed_jobs_def json_load_def loads_slash)

lemma dumps_slash: "json_dumps R (JArr [JStr [47]]) = [91, 10, 32, 32, 34, 47, 34, 10, 93]"
  by (simp add: json_dumps_def newline_indent_def encode_string_def escape_char_def)

text \<open>
  C9 as stated fails: the well-formed file \<open>["\/"]\<close> is loaded as the list with
  the one string \<open>/\<close> and, the file being writable, saved as \<open>"/"\<close> on a line of
  its own between the brackets; without their insignificant whitespace the two texts
  are \<open>["/"]\<close> and \<open>["\/"]\<close>.
\<close>

theorem escapes_are_rewritten:
  "json_loads ascii_runtime [91, 34, 92, 47, 34, 93] = Inr (JArr [JStr [47]])
   \<and> load_then_save ascii_runtime None (Text [91, 34, 92, 47, 34, 93])
       = Inr (Text [91, 10, 32, 32, 34, 47, 34, 10, 93])
   \<and> significant [91, 10, 32, 32, 34, 47, 34, 10, 93] = [91, 34, 47, 34, 93]
   \<and> significant [91, 34, 92, 47, 34, 93] = [91, 34, 92, 47, 34, 93]
   \<and> significant [91, 10, 32, 32, 34, 47, 34, 10, 93] \<noteq> significant [91, 34, 92, 47, 34, 93]"
proof -
  note l = loads_slash [of ascii_runtime]
  have s: "load_then_save ascii_runtime None (Text [91, 34, 92, 47, 34, 93])
           = Inr (Text [91, 10, 32, 32, 34, 47, 34, 10, 93])"
    using load_slash [of ascii_runtime]
    by (simp add: escaped_slash_file_def load_then_save_def save_processed_jobs_def dumps_slash)
  have a: "significant [91, 10, 32, 32, 34, 47, 34, 10, 93] = [91, 34, 47, 34, 93]"
    and b: "significant [91, 34, 92, 47, 34, 93] = [91, 34, 92, 47, 34, 93]"
    by (simp_all add: significant_def is_ws_def)
  from l s a b show ?thesis by simp
qed

text \<open>
  C9, amended. For every state file that \<open>get_processed_jobs\<close> reads as a list of
  strings of Unicode scalar values: when the file can be opened for writing, loading and
  saving at once writes the encoding of that list, a text that is read as the same list
  again and that a further load and save leaves byte for byte as it is; when opening it
  for writing raises, that exception is raised and the file stays as it was. So a file
  that \<open>save_processed_jobs\<close> wrote is left identical; in other files escapes are
  respelt, not only whitespace.
\<close>

theorem load_then_save_keeps_the_links:
  assumes "list_all (list_all is_scalar) xs"
    and "get_processed_jobs R f = Inr (JArr (map JStr xs))"
  shows "load_then_save R None f = Inr (Text (json_dumps R (JArr (map JStr xs))))
         \<and> get_processed_jobs R (Text (json_dumps R (JArr (map JStr xs)))) = Inr (JArr (map JStr xs))
         \<and> load_then_save R None (Text (json_dumps R (JArr (map JStr xs))))
             = Inr (Text (json_dumps R (JArr (map JStr xs))))
         \<and> (\<forall>e. load_then_save R (Some e) f = Inl e)"
proof -
  from assms(2) have a: "load_then_save R None f = Inr (Text (json_dumps R (JArr (map JStr xs))))"
    and c: "load_then_save R (Some e) f = Inl e" for e
    by (simp_all add: load_then_save_def save_processed_jobs_def)
  have b: "get_processed_jobs R (Text (json_dumps R (JArr (map JStr xs)))) = Inr (JArr (map JStr xs))"
    using loads_dumps_strings [OF assms(1), of R R]
    by (simp add: get_processed_jobs_def json_load_def)
  then have "load_then_save R None (Text (json_dumps R (JArr (map JStr xs))))
             = Inr (Text (json_dumps R (JArr (map JStr xs))))"
    by (simp add: load_then_save_def save_processed_jobs_def)
  with a b c show ?thesis by simp
qed

theorem load_then_save_keeps_the_links_witness:
  "list_all (list_all is_scalar) [[47]]
   \<and> get_processed_jobs ascii_runtime escaped_slash_file = Inr (JArr (map JStr [[47]]))
   \<and> load_then_save ascii_runtime None escaped_slash_file
       = Inr (Text (json_dumps ascii_runtime (JArr (map JStr [[47]]))))
   \<and> load_then_save ascii_runtime None (Text (json_dumps ascii_runtime (JArr (map JStr [[47]]))))
       = Inr (Text (json_dumps ascii_runtime (JArr (map JStr [[47]]))))
   \<and> load_then_save ascii_runtime (Some PermissionError) escaped_slash_file = Inl PermissionError"
proof -
  have s: "list_all (list_all is_scalar) [[47]]"
    by (simp add: is_scalar_def is_surrogate_def)
  have l: "get_processed_jobs ascii_runtime escaped_slash_file = Inr (JArr (map JStr [[47]]))"
    using load_slash [of ascii_runtime] by simp
  from load_then_save_keeps_the_links [OF s l] s l show ?thesis
    by blast
qed

section \<open>The search step\<close>

lemma q_upper: "first_q ascii_runtime href_upper = Some maps_upper"
  by (simp add: first_q_def query_def clean_url_def after_scheme_def parse_qsl_def
        split_on.simps parse_field_def List.map_filter_simps unquote_def plus_to_space_def
        maps_upper_def href_upper_def is_alpha_def)

lemma hostname_upper: "hostname ascii_runtime maps_upper = Inr (Some (lit ''www.google.com''))"
  by (simp add: hostname_def netloc_def clean_url_def after_scheme_def is_alpha_def
        is_scheme_char_def is_digit_def is_delim_def rpartition_at_def ascii_lower_def
        maps_upper_def Let_def)

lemma hostname_google: "hostname ascii_runtime google_url = Inr (Some (lit ''www.google.com''))"
  by (simp add: hostname_def netloc_def clean_url_def after_scheme_def is_alpha_def
        is_scheme_char_def is_digit_def is_delim_def rpartition_at_def ascii_lower_def
        google_url_def Let_def)

text \<open>
  C3 as stated fails: the test is for the text \<open>google.com\<close> in the address, not
  for its host. An address that spells the host in capitals passes, though
  \<open>urlparse\<close> gives it the host of the search request itself.
\<close>

theorem provider_host_in_capitals_is_a_candidate:
  "find_links ascii_runtime (JArr []) [href_upper] = Inr [maps_upper]
   \<and> hostname ascii_runtime maps_upper = Inr (Some (lit ''www.google.com''))
   \<and> hostname ascii_runtime google_url = Inr (Some (lit ''www.google.com''))"
proof -
  have "prefix (lit ''/url?q='') href_upper" by (simp add: href_upper_def)
  moreover have "maps_upper \<noteq> []" "\<not> sublist (lit ''google.com'') maps_upper"
    by (simp_all add: maps_upper_def sublist_code)
  ultimately have "find_links ascii_runtime (JArr []) [href_upper] = Inr [maps_upper]"
    by (simp add: candidate_def q_upper)
  with hostname_upper hostname_google show ?thesis by simp
qed

text \<open>
  C3, amended. For every list of anchors and every loaded list, the search step yields
  candidates none of which contains the text \<open>google.com\<close> (in this spelling) and
  none of which is in the loaded list; and once its candidates are added to the list,
  the same search yields no candidate at all.
\<close>

theorem candidates_are_filtered:
  "\<exists>links. find_links R (JArr vs) hrefs = Inr links
     \<and> (\<forall>url \<in> set links. \<not> sublist (lit ''google.com'') url \<and> JStr url \<notin> set vs)
     \<and> find_links R (JArr (vs @ map JStr links)) hrefs = Inr []"
proof -
  from find_links_list obtain links where l: "find_links R (JArr vs) hrefs = Inr links"
    by blast
  have "\<not> sublist (lit ''google.com'') url \<and> JStr url \<notin> set vs" if "url \<in> set links" for url
    using find_links_sound [OF l that] by simp
  moreover have "find_links R (JArr (vs @ map JStr links)) hrefs = Inr []"
    by (rule find_links_rerun [OF l]) auto
  ultimately show ?thesis using l by blast
qed

theorem candidates_are_filtered_witness:
  "find_links ascii_runtime (JArr [JStr job1]) [href1, href2] = Inr [job2]
   \<and> \<not> sublist (lit ''google.com'') job2 \<and> JStr job2 \<notin> set [JStr job1]
   \<and> find_links ascii_runtime (JArr ([JStr job1] @ map JStr [job2])) [href1, href2] = Inr []"
  using candidates_are_filtered [of ascii_runtime "[JStr job1]" "[href1, href2]"]
  by (auto simp: example_links simp del: find_links.simps)

section \<open>The run as a whole\<close>

lemma loop_has_no_final_event:
  "filter is_save (fst (process_links W k t i links)) = []"
  "filter is_notify_status (fst (process_links W k t i links)) = []"
  using process_links_no_final [of _ W k t i links]
  by (auto simp: filter_empty_conv)

lemma finish_list:
  "finish W t (JArr vs) n (evs, found) =
     (if found \<noteq> [] then
        \<lparr>events = evs @ [Save (JArr (vs @ map JStr found))], new_jobs_found = found,
         file_after = (case open_for_writing W of
                         None \<Rightarrow> Text (json_dumps (python W) (JArr (vs @ map JStr found)))
                       | Some e \<Rightarrow> PROCESSED_JOBS_FILE W),
         outcome = (case open_for_writing W of None \<Rightarrow> Done | Some e \<Rightarrow> Raised e)\<rparr>
      else
        \<lparr>events = evs @ [NotifyStatus (status_update W)], new_jobs_found = found,
         file_after = PROCESSED_JOBS_FILE W,
         outcome = (case send_ntfy_notification (python W) (ntfy_post W n) (status_update W) t True of
                      Inl e \<Rightarrow> Raised e | Inr _ \<Rightarrow> Done)\<rparr>)"
  by (simp add: finish_def save_processed_jobs_def split: option.splits)

lemma finish_events:
  "events (finish W t p n (evs, found)) = evs
   \<or> (\<exists>ev. events (finish W t p n (evs, found)) = evs @ [ev] \<and> subject ev = None)"
  by (auto simp: finish_def split: sum.splits)

lemma main_event_subjects:
  assumes "e \<in> set (events (main W))" and "subject e = Some url"
  shows "\<exists>p hrefs links. get_processed_jobs (python W) (PROCESSED_JOBS_FILE W) = Inr p
           \<and> google_search W = Inr hrefs \<and> find_links (python W) p hrefs = Inr links
           \<and> url \<in> set links"
proof -
  have quiet: "events (aborted W out) = []" for out
    by (simp add: aborted_def)
  from assms(1) obtain k t p hrefs links where
    p: "get_processed_jobs (python W) (PROCESSED_JOBS_FILE W) = Inr p"
    and h: "google_search W = Inr hrefs"
    and l: "find_links (python W) p hrefs = Inr links"
    and m: "main W = finish W t p (length links) (process_links W k t 0 links)"
    by (auto simp: main_def quiet split: option.splits if_splits sum.splits)
  obtain evs found where pl: "process_links W k t 0 links = (evs, found)"
    by (cases "process_links W k t 0 links")
  from finish_events [of W t p "length links" evs found] assms m pl
  have "e \<in> set evs" by auto
  with pl process_links_subject [of e W k t 0 links] assms(2)
  have "url \<in> set links" by auto
  with p h l show ?thesis by blast
qed

lemma step_with_reply:
  assumes "python W = ascii_runtime" and "get_page W i job2 = Inr example_page"
    and "gemini_post W i (api_url k) (payload example_job)
         = Inr \<lparr>status_code = 200, json_result = Inr (reply_json reply)\<rparr>"
    and "\<And>r. ntfy_post W i r = Inr ()"
    and "\<not> list_ex is_surrogate reply"
  shows "process_link W k t i job2
         = (if sublist (lit ''YES'') (upper ascii_runtime reply)
            then ([Fetch job2, Classify example_job, NotifyJob example_job], Inr True)
            else ([Fetch job2, Classify example_job], Inr False))"
proof -
  have v: "analyze_with_gemini ascii_runtime (gemini_post W i) example_job k
           = Inr (sublist (lit ''YES'') (upper ascii_runtime reply))"
    by (rule analyze_printable_reply
          [where resp = "\<lparr>status_code = 200, json_result = Inr (reply_json reply)\<rparr>"
             and result = "reply_json reply"])
       (simp_all add: assms(3,5) example_reply example_title)
  have n: "send_ntfy_notification ascii_runtime (ntfy_post W i) example_job t False = Inr ()"
    by (rule example_notification) (rule assms(4))
  show ?thesis
    unfolding process_link_def assms(1,2)
    by (simp only: example_details v n sum.case split: if_splits)
qed

lemma rejecting_main:
  "new_jobs_found (main rejecting_world) = []"
proof -
  have w: "GEMINI_API_KEY rejecting_world = Some (lit ''k'')" "lit ''k'' \<noteq> ([]::str)"
    "NTFY_TOPIC rejecting_world = Some (lit ''jobs'')" "lit ''jobs'' \<noteq> ([]::str)"
    "google_search rejecting_world = Inr [href1, href2]"
    and p: "python rejecting_world = ascii_runtime" "python example_world = ascii_runtime"
    and f: "PROCESSED_JOBS_FILE rejecting_world = PROCESSED_JOBS_FILE example_world"
    by (simp_all add: rejecting_world_def example_world_def)
  have s: "process_link rejecting_world (lit ''k'') (lit ''jobs'') 0 job2
           = ([Fetch job2, Classify example_job], Inr False)"
    by (subst step_with_reply [where reply = "lit ''NO''"])
       (simp_all add: rejecting_world_def example_world_def upper_def upper_char_def sublist_code
          is_surrogate_def)
  from main_reaches_finish [OF w(1-4) _ w(5), of "[JStr job1]"] example_load example_links
  have "main rejecting_world
        = finish rejecting_world (lit ''jobs'') (JArr [JStr job1]) (length [job2])
            (process_links rejecting_world (lit ''k'') (lit ''jobs'') 0 [job2])"
    by (auto simp: p f)
  then show ?thesis
    by (simp add: s [simplified] finish_def)
qed

text \<open>
  C4. A link that is in the list loaded at the start of a run is the subject of no
  fetch and of no classification in that run.
\<close>

theorem processed_links_are_not_revisited:
  assumes "get_processed_jobs (python W) (PROCESSED_JOBS_FILE W) = Inr (JArr vs)"
    and "JStr url \<in> set vs"
  shows "Fetch url \<notin> set (events (main W))
         \<and> (\<forall>jd. link jd = url \<longrightarrow> Classify jd \<notin> set (events (main W)))"
proof -
  have "subject e \<noteq> Some url" if "e \<in> set (events (main W))" for e
  proof
    assume "subject e = Some url"
    from main_event_subjects [OF that this] assms(1) obtain hrefs links where
      "find_links (python W) (JArr vs) hrefs = Inr links" "url \<in> set links"
      by auto
    from find_links_sound [OF this] assms(2) show False by simp
  qed
  from this [of "Fetch url"] this [of "Classify jd" for jd] show ?thesis by auto
qed

theorem processed_links_are_not_revisited_witness:
  "get_processed_jobs (python example_world) (PROCESSED_JOBS_FILE example_world)
     = Inr (JArr [JStr job1])
   \<and> Fetch job1 \<notin> set (events (main example_world))
   \<and> Fetch job2 \<in> set (events (main example_world))"
  using processed_links_are_not_revisited [of example_world "[JStr job1]" job1]
  by (simp add: example_load example_main)

lemma read_only_main:
  "main read_only_world
   = \<lparr>events = [Fetch job2, Classify example_job, NotifyJob example_job,
                 Save (JArr [JStr job1, JStr job2])],
      new_jobs_found = [job2],
      file_after = PROCESSED_JOBS_FILE read_only_world,
      outcome = Raised PermissionError\<rparr>"
proof -
  have w: "GEMINI_API_KEY read_only_world = Some (lit ''k'')" "lit ''k'' \<noteq> ([]::str)"
    "NTFY_TOPIC read_only_world = Some (lit ''jobs'')" "lit ''jobs'' \<noteq> ([]::str)"
    "get_processed_jobs (python read_only_world) (PROCESSED_JOBS_FILE read_only_world)
       = Inr (JArr [JStr job1])"
    "google_search read_only_world = Inr [href1, href2]"
    and p: "python read_only_world = ascii_runtime"
    and f: "open_for_writing read_only_world = Some PermissionError"
    using example_load by (simp_all add: read_only_world_def example_world_def)
  have s: "process_link read_only_world (lit ''k'') (lit ''jobs'') 0 job2
           = ([Fetch job2, Classify example_job, NotifyJob example_job], Inr True)"
    by (subst step_with_reply [where reply = "lit ''YES, this matches''"])
       (simp_all add: read_only_world_def example_world_def upper_def upper_char_def sublist_code
          is_surrogate_def)
  from main_reaches_finish [OF w] example_links
  have "main read_only_world
        = finish read_only_world (lit ''jobs'') (JArr [JStr job1]) (length [job2])
            (process_links read_only_world (lit ''k'') (lit ''jobs'') 0 [job2])"
    by (auto simp: p)
  then show ?thesis
    by (simp add: s [simplified] finish_list f)
qed

text \<open>
  C2 as stated fails: when the state file can be read but not opened for writing, a
  link is accepted and \<open>save_processed_jobs\<close> is called, but \<open>open\<close> raises
  \<open>PermissionError\<close>, which ends the run; the file is as it was and still holds the
  loaded list alone.
\<close>

theorem accepted_link_is_lost_when_the_file_is_read_only:
  "get_processed_jobs (python read_only_world) (PROCESSED_JOBS_FILE read_only_world)
     = Inr (JArr [JStr job1])
   \<and> new_jobs_found (main read_only_world) = [job2]
   \<and> filter is_save (events (main read_only_world)) = [Save (JArr [JStr job1, JStr job2])]
   \<and> outcome (main read_only_world) = Raised PermissionError
   \<and> file_after (main read_only_world) = PROCESSED_JOBS_FILE read_only_world
   \<and> get_processed_jobs (python read_only_world) (file_after (main read_only_world))
       = Inr (JArr [JStr job1])"
proof -
  have "get_processed_jobs (python read_only_world) (PROCESSED_JOBS_FILE read_only_world)
        = Inr (JArr [JStr job1])"
    using example_load by (simp add: read_only_world_def example_world_def)
  then show ?thesis
    by (simp add: read_only_main)
qed

text \<open>
  C2, amended. In a run that reaches the final step with a list loaded: if links were
  accepted, \<open>save_processed_jobs\<close> is called once, with the loaded list followed by
  the accepted links, and no status notification is called. When opening the file for
  writing raises, the run ends with that exception and the file is as it was. When the
  file can be opened and the loaded list is a list of strings, the run ends normally and
  the file holds the encoding of the loaded strings followed by the accepted links,
  which \<open>get_processed_jobs\<close> reads back as that very list if the strings are of
  Unicode scalar values; with one link accepted, that is the loaded strings and that
  link once. If no link was accepted, the status notification is called once,
  \<open>save_processed_jobs\<close> is not called and the file is as it was.
\<close>

theorem finalizing_saves_or_notifies:
  assumes "GEMINI_API_KEY W = Some k" "k \<noteq> []" "NTFY_TOPIC W = Some t" "t \<noteq> []"
    and "get_processed_jobs (python W) (PROCESSED_JOBS_FILE W) = Inr (JArr vs)"
    and "google_search W = Inr hrefs"
  shows "(new_jobs_found (main W) \<noteq> [] \<longrightarrow>
            filter is_save (events (main W))
              = [Save (JArr (vs @ map JStr (new_jobs_found (main W))))]
            \<and> filter is_notify_status (events (main W)) = []
            \<and> (\<forall>e. open_for_writing W = Some e \<longrightarrow>
                 outcome (main W) = Raised e \<and> file_after (main W) = PROCESSED_JOBS_FILE W)
            \<and> (\<forall>xs. open_for_writing W = None \<and> vs = map JStr xs \<longrightarrow>
                 outcome (main W) = Done
                 \<and> file_after (main W)
                   = Text (json_dumps (python W) (JArr (map JStr (xs @ new_jobs_found (main W)))))
                 \<and> (list_all (list_all is_scalar) (xs @ new_jobs_found (main W))
                      \<longrightarrow> get_processed_jobs (python W) (file_after (main W))
                            = Inr (JArr (map JStr (xs @ new_jobs_found (main W)))))))
       \<and> (new_jobs_found (main W) = [] \<longrightarrow>
            filter is_notify_status (events (main W)) = [NotifyStatus (status_update W)]
            \<and> filter is_save (events (main W)) = []
            \<and> file_after (main W) = PROCESSED_JOBS_FILE W)
       \<and> (\<forall>xs url. open_for_writing W = None \<and> vs = map JStr xs
                     \<and> new_jobs_found (main W) = [url] \<longrightarrow>
            file_after (main W) = Text (json_dumps (python W) (JArr (map JStr (xs @ [url])))))"
proof -
  from main_reaches_finish [OF assms] obtain links where
    m: "main W = finish W t (JArr vs) (length links) (process_links W k t 0 links)"
    by blast
  obtain evs found where pl: "process_links W k t 0 links = (evs, found)"
    by (cases "process_links W k t 0 links")
  from loop_has_no_final_event [of W k t 0 links] pl
  have evs: "filter is_save evs = []" "filter is_notify_status evs = []"
    by simp_all
  have found: "new_jobs_found (main W) = found"
    unfolding m pl finish_list by simp
  show ?thesis
  proof (cases "found = []")
    case True
    with evs show ?thesis
      unfolding m pl finish_list by simp
  next
    case False
    then have ev: "events (main W) = evs @ [Save (JArr (vs @ map JStr found))]"
      unfolding m pl finish_list by simp
    have raised: "outcome (main W) = Raised e \<and> file_after (main W) = PROCESSED_JOBS_FILE W"
      if "open_for_writing W = Some e" for e
      using that False unfolding m pl finish_list by simp
    have written: "outcome (main W) = Done
        \<and> file_after (main W) = Text (json_dumps (python W) (JArr (map JStr (xs @ found))))
        \<and> (list_all (list_all is_scalar) (xs @ found)
             \<longrightarrow> get_processed_jobs (python W) (file_after (main W))
                   = Inr (JArr (map JStr (xs @ found))))"
      if "open_for_writing W = None \<and> vs = map JStr xs" for xs
    proof -
      from that False have o: "outcome (main W) = Done"
        and f: "file_after (main W) = Text (json_dumps (python W) (JArr (map JStr (xs @ found))))"
        unfolding m pl finish_list by simp_all
      have "get_processed_jobs (python W) (file_after (main W))
            = Inr (JArr (map JStr (xs @ found)))"
        if "list_all (list_all is_scalar) (xs @ found)"
        unfolding f using loads_dumps_strings [OF that, of "python W" "python W"]
        by (simp add: get_processed_jobs_def json_load_def)
      with o f show ?thesis by simp
    qed
    have single: "file_after (main W) = Text (json_dumps (python W) (JArr (map JStr (xs @ [url]))))"
      if "open_for_writing W = None \<and> vs = map JStr xs \<and> found = [url]" for xs url
    proof -
      from that have "open_for_writing W = None \<and> vs = map JStr xs" and u: "found = [url]"
        by simp_all
      from written [OF this(1)] show ?thesis
        unfolding u by blast
    qed
    from ev evs
    have saved: "filter is_save (events (main W)) = [Save (JArr (vs @ map JStr found))]"
      and quiet: "filter is_notify_status (events (main W)) = []"
      by simp_all
    from False saved quiet raised written single show ?thesis
      unfolding found by blast
  qed
qed

theorem finalizing_saves_or_notifies_witness:
  "file_after (main example_world)
     = Text (json_dumps (python example_world) (JArr (map JStr ([job1] @ [job2]))))
   \<and> get_processed_jobs (python example_world) (file_after (main example_world))
       = Inr (JArr (map JStr ([job1] @ [job2])))
   \<and> outcome (main example_world) = Done
   \<and> filter is_notify_status (events (main example_world)) = []
   \<and> outcome (main read_only_world) = Raised PermissionError
   \<and> file_after (main read_only_world) = PROCESSED_JOBS_FILE read_only_world
   \<and> filter is_notify_status (events (main rejecting_world))
       = [NotifyStatus (status_update rejecting_world)]
   \<and> filter is_save (events (main rejecting_world)) = []
   \<and> file_after (main rejecting_world) = PROCESSED_JOBS_FILE rejecting_world"
proof -
  have w: "GEMINI_API_KEY example_world = Some (lit ''k'')" "lit ''k'' \<noteq> ([]::str)"
    "NTFY_TOPIC example_world = Some (lit ''jobs'')" "lit ''jobs'' \<noteq> ([]::str)"
    "google_search example_world = Inr [href1, href2]"
    by (simp_all add: example_world_def)
  have r: "GEMINI_API_KEY rejecting_world = Some (lit ''k'')"
    "NTFY_TOPIC rejecting_world = Some (lit ''jobs'')"
    "google_search rejecting_world = Inr [href1, href2]"
    "get_processed_jobs (python rejecting_world) (PROCESSED_JOBS_FILE rejecting_world)
       = Inr (JArr [JStr job1])"
    using example_load by (simp_all add: rejecting_world_def example_world_def)
  have d: "GEMINI_API_KEY read_only_world = Some (lit ''k'')"
    "NTFY_TOPIC read_only_world = Some (lit ''jobs'')"
    "google_search read_only_world = Inr [href1, href2]"
    "get_processed_jobs (python read_only_world) (PROCESSED_JOBS_FILE read_only_world)
       = Inr (JArr [JStr job1])"
    and de: "open_for_writing read_only_world = Some PermissionError"
    using example_load by (simp_all add: read_only_world_def example_world_def)
  have n: "new_jobs_found (main example_world) = [job2]"
    and nd: "new_jobs_found (main read_only_world) = [job2]"
    by (simp_all add: example_main read_only_main)
  have o: "open_for_writing example_world = None \<and> [JStr job1] = map JStr [job1]"
    by (simp add: example_world_def)
  have s: "list_all (list_all is_scalar) ([job1] @ [job2])"
    by (simp add: job1_def job2_def is_scalar_def is_surrogate_def)
  have ne: "[job2] \<noteq> ([]::str list)"
    by simp
  note accepted =
    finalizing_saves_or_notifies [OF w(1-4) example_load w(5), unfolded n,
      THEN conjunct1, THEN mp, OF ne]
  note written =
    accepted [THEN conjunct2, THEN conjunct2, THEN conjunct2, THEN spec, of "[job1]",
      THEN mp, OF o]
  note read_again = written [THEN conjunct2, THEN conjunct2, THEN mp, OF s]
  note denied =
    finalizing_saves_or_notifies [OF d(1) w(2) d(2) w(4) d(4) d(3), unfolded nd,
      THEN conjunct1, THEN mp, OF ne, THEN conjunct2, THEN conjunct2, THEN conjunct1,
      THEN spec, of PermissionError, THEN mp, OF de]
  note none_accepted =
    finalizing_saves_or_notifies [OF r(1) w(2) r(2) w(4) r(4) r(3), unfolded rejecting_main,
      THEN conjunct2, THEN conjunct1, THEN mp, OF refl]
  from written [THEN conjunct2, THEN conjunct1] read_again written [THEN conjunct1]
    accepted [THEN conjunct2, THEN conjunct1]
    denied [THEN conjunct1] denied [THEN conjunct2]
    none_accepted [THEN conjunct1]
    none_accepted [THEN conjunct2, THEN conjunct1] none_accepted [THEN conjunct2, THEN conjunct2]
  show ?thesis
    by (intro conjI) assumption+
qed

lemma fetch_is_first: "Fetch url \<in> set (fst (process_link W k t i url))"
  using process_link_shape [of W k t i url] by auto

lemma classified_when_fetched:
  assumes "get_page W i url = Inr pg" and "make_job_details (python W) pg url = Inr jd"
  shows "Classify jd \<in> set (fst (process_link W k t i url))"
  using assms by (simp add: process_link_def split: sum.splits)

lemma failed_step:
  assumes "get_page W i url = Inl e
           \<or> (\<exists>pg. get_page W i url = Inr pg \<and> make_job_details (python W) pg url = Inl e)
           \<or> (\<exists>pg jd. get_page W i url = Inr pg \<and> make_job_details (python W) pg url = Inr jd
                 \<and> analyze_with_gemini (python W) (gemini_post W i) jd k = Inl e)"
  shows "snd (process_link W k t i url) = Inl e
         \<and> filter is_notify_job (fst (process_link W k t i url)) = []"
  using assms by (auto simp: process_link_def)

lemma loop_split:
  "fst (process_links W k t 0 (pre @ A # mid @ B # post))
   = fst (process_links W k t 0 pre) @ fst (process_link W k t (length pre) A)
     @ fst (process_links W k t (Suc (length pre)) mid)
     @ fst (process_link W k t (Suc (length pre + length mid)) B)
     @ fst (process_links W k t (Suc (Suc (length pre + length mid))) post)"
  by (simp add: process_links_append process_links_Cons del: process_links.simps(2))

lemma finish_list_events:
  "\<exists>final. events (finish W t (JArr vs) n (evs, found)) = evs @ [final]
           \<and> (is_save final \<or> is_notify_status final)"
  by (simp add: finish_list)

text \<open>
  C7. When the fetch of a candidate link \<open>A\<close>, the making of its record or its
  classification raises, the loop catches the exception: \<open>A\<close> is not accepted and no
  job notification is called for it, the link \<open>B\<close> that comes later in the list is
  fetched all the same and, when its own fetch succeeds, classified, and the run goes on
  to its final step.
\<close>

theorem link_failure_is_isolated:
  assumes "GEMINI_API_KEY W = Some k" "k \<noteq> []" "NTFY_TOPIC W = Some t" "t \<noteq> []"
    and "get_processed_jobs (python W) (PROCESSED_JOBS_FILE W) = Inr (JArr vs)"
    and "google_search W = Inr hrefs"
    and "find_links (python W) (JArr vs) hrefs = Inr (pre @ A # mid @ B # post)"
    and "get_page W (length pre) A = Inl e
         \<or> (\<exists>pg. get_page W (length pre) A = Inr pg
               \<and> make_job_details (python W) pg A = Inl e)
         \<or> (\<exists>pg jd. get_page W (length pre) A = Inr pg
               \<and> make_job_details (python W) pg A = Inr jd
               \<and> analyze_with_gemini (python W) (gemini_post W (length pre)) jd k = Inl e)"
  shows "snd (process_link W k t (length pre) A) = Inl e
       \<and> filter is_notify_job (fst (process_link W k t (length pre) A)) = []
       \<and> (\<exists>before between after final.
            events (main W)
              = before @ fst (process_link W k t (length pre) A) @ between
                @ fst (process_link W k t (Suc (length pre + length mid)) B) @ after @ [final]
            \<and> (is_save final \<or> is_notify_status final))
       \<and> Fetch B \<in> set (events (main W))
       \<and> (\<forall>pg jd. get_page W (Suc (length pre + length mid)) B = Inr pg
                   \<and> make_job_details (python W) pg B = Inr jd
            \<longrightarrow> Classify jd \<in> set (events (main W)))"
proof -
  let ?links = "pre @ A # mid @ B # post"
  let ?a = "fst (process_link W k t (length pre) A)"
  let ?b = "fst (process_link W k t (Suc (length pre + length mid)) B)"
  from main_reaches_finish [OF assms(1-6)] assms(7)
  have m: "main W = finish W t (JArr vs) (length ?links) (process_links W k t 0 ?links)"
    by auto
  obtain evs found where pl: "process_links W k t 0 ?links = (evs, found)"
    by (cases "process_links W k t 0 ?links")
  from finish_list_events [of W t vs "length ?links" evs found] obtain final where
    ev: "events (main W) = evs @ [final]" and fin: "is_save final \<or> is_notify_status final"
    unfolding m pl by blast
  from loop_split [of W k t pre A mid B post] pl
  have evs: "evs = fst (process_links W k t 0 pre) @ ?a
               @ fst (process_links W k t (Suc (length pre)) mid) @ ?b
               @ fst (process_links W k t (Suc (Suc (length pre + length mid))) post)"
    by simp
  have shape: "\<exists>before between after final.
      events (main W) = before @ ?a @ between @ ?b @ after @ [final]
      \<and> (is_save final \<or> is_notify_status final)"
    using ev evs fin by (metis append_assoc)
  have b: "set ?b \<subseteq> set (events (main W))"
    unfolding ev evs by auto
  from b fetch_is_first [of B W k t "Suc (length pre + length mid)"]
  have fb: "Fetch B \<in> set (events (main W))" by blast
  have cb: "Classify jd \<in> set (events (main W))"
    if "get_page W (Suc (length pre + length mid)) B = Inr pg"
      "make_job_details (python W) pg B = Inr jd" for pg jd
    using classified_when_fetched [OF that, of k t] b by blast
  from failed_step [OF assms(8), of t] shape fb cb show ?thesis by blast
qed

lemma both_links:
  "find_links ascii_runtime (JArr []) [href1, href2] = Inr [job1, job2]"
proof -
  have "job1 \<noteq> []" "job2 \<noteq> []" by (simp_all add: job1_def job2_def)
  moreover have "prefix (lit ''/url?q='') href1" "prefix (lit ''/url?q='') href2"
    by (simp_all add: href1_def href2_def)
  ultimately show ?thesis
    by (simp add: candidate_def q_job1 q_job2 no_google1 [simplified] no_google2 [simplified])
qed

theorem link_failure_is_isolated_witness:
  "get_page flaky_world 0 job1 = Inl (RequestException Timeout)
   \<and> snd (process_link flaky_world (lit ''k'') (lit ''jobs'') 0 job1) = Inl (RequestException Timeout)
   \<and> Fetch job2 \<in> set (events (main flaky_world))
   \<and> Classify example_job \<in> set (events (main flaky_world))"
proof -
  have w: "GEMINI_API_KEY flaky_world = Some (lit ''k'')" "lit ''k'' \<noteq> ([]::str)"
    "NTFY_TOPIC flaky_world = Some (lit ''jobs'')" "lit ''jobs'' \<noteq> ([]::str)"
    "get_processed_jobs (python flaky_world) (PROCESSED_JOBS_FILE flaky_world) = Inr (JArr [])"
    "google_search flaky_world = Inr [href1, href2]"
    and p: "python flaky_world = ascii_runtime"
    and a: "get_page flaky_world 0 job1 = Inl (RequestException Timeout)"
    and b: "get_page flaky_world (Suc 0) job2 = Inr example_page"
    by (simp_all add: flaky_world_def example_world_def get_processed_jobs_def json_load_def)
  have l: "find_links (python flaky_world) (JArr []) [href1, href2] = Inr ([] @ job1 # [] @ job2 # [])"
    by (simp only: p both_links append_Nil)
  have f: "get_page flaky_world (length ([]::str list)) job1 = Inl (RequestException Timeout)
           \<or> (\<exists>pg. get_page flaky_world (length ([]::str list)) job1 = Inr pg
                 \<and> make_job_details (python flaky_world) pg job1 = Inl (RequestException Timeout))
           \<or> (\<exists>pg jd. get_page flaky_world (length ([]::str list)) job1 = Inr pg
                 \<and> make_job_details (python flaky_world) pg job1 = Inr jd
                 \<and> analyze_with_gemini (python flaky_world)
                      (gemini_post flaky_world (length ([]::str list))) jd (lit ''k'')
                    = Inl (RequestException Timeout))"
    using a by simp
  have d: "make_job_details (python flaky_world) example_page job2 = Inr example_job"
    by (simp only: p example_details)
  from link_failure_is_isolated [OF w l f] a b d show ?thesis
    by simp
qed

text \<open>
  C8 as stated fails: an address that the search returns twice is fetched, classified
  and, when accepted, appended twice, and the saved list holds it twice.
\<close>

theorem link_found_twice_is_saved_twice:
  "new_jobs_found (main repeating_world) = [job2, job2]
   \<and> filter is_save (events (main repeating_world)) = [Save (JArr [JStr job2, JStr job2])]
   \<and> file_after (main repeating_world)
       = Text (json_dumps ascii_runtime (JArr [JStr job2, JStr job2]))
   \<and> \<not> distinct [JStr job2, JStr job2]"
proof -
  have w: "GEMINI_API_KEY repeating_world = Some (lit ''k'')" "lit ''k'' \<noteq> ([]::str)"
    "NTFY_TOPIC repeating_world = Some (lit ''jobs'')" "lit ''jobs'' \<noteq> ([]::str)"
    "get_processed_jobs (python repeating_world) (PROCESSED_JOBS_FILE repeating_world)
       = Inr (JArr [])"
    "google_search repeating_world = Inr [href2, href2]"
    and p: "python repeating_world = ascii_runtime"
    and f: "open_for_writing repeating_world = None"
    by (simp_all add: repeating_world_def example_world_def get_processed_jobs_def json_load_def)
  have l: "find_links ascii_runtime (JArr []) [href2, href2] = Inr [job2, job2]"
  proof -
    have "job2 \<noteq> []" by (simp add: job2_def)
    moreover have "prefix (lit ''/url?q='') href2" by (simp add: href2_def)
    ultimately show ?thesis
      by (simp add: candidate_def q_job2 no_google2 [simplified])
  qed
  have s: "process_link repeating_world (lit ''k'') (lit ''jobs'') i job2
           = ([Fetch job2, Classify example_job, NotifyJob example_job], Inr True)" for i
    by (subst step_with_reply [where reply = "lit ''YES, this matches''"])
       (simp_all add: repeating_world_def example_world_def upper_def upper_char_def sublist_code
          is_surrogate_def)
  from main_reaches_finish [OF w] l
  have "main repeating_world
        = finish repeating_world (lit ''jobs'') (JArr []) (length [job2, job2])
            (process_links repeating_world (lit ''k'') (lit ''jobs'') 0 [job2, job2])"
    by (auto simp: p)
  then show ?thesis
    by (simp add: s [simplified] finish_list p f)
qed

text \<open>
  C8, amended. In a run that saves, the saved list is the loaded list followed by the
  accepted links; every accepted link is a candidate of the run and none of them is in
  the loaded list. So the saved list holds each address once if the loaded list did and
  the candidates of the run were pairwise different.
\<close>

theorem saved_list_repeats_no_loaded_link:
  assumes "GEMINI_API_KEY W = Some k" "k \<noteq> []" "NTFY_TOPIC W = Some t" "t \<noteq> []"
    and "get_processed_jobs (python W) (PROCESSED_JOBS_FILE W) = Inr (JArr vs)"
    and "google_search W = Inr hrefs"
    and "find_links (python W) (JArr vs) hrefs = Inr links"
  shows "(\<forall>saved. Save saved \<in> set (events (main W)) \<longrightarrow>
            saved = JArr (vs @ map JStr (new_jobs_found (main W))))
       \<and> (\<forall>url \<in> set (new_jobs_found (main W)). url \<in> set links \<and> JStr url \<notin> set vs)
       \<and> (distinct vs \<and> distinct links \<longrightarrow>
            distinct (vs @ map JStr (new_jobs_found (main W))))"
proof -
  from main_reaches_finish [OF assms(1-6)] assms(7)
  have m: "main W = finish W t (JArr vs) (length links) (process_links W k t 0 links)"
    by auto
  obtain evs found where pl: "process_links W k t 0 links = (evs, found)"
    by (cases "process_links W k t 0 links")
  from new_jobs_subset [of W k t 0 links] new_jobs_distinct [of links W k t 0] pl
  have sub: "set found \<subseteq> set links" and dist: "distinct links \<Longrightarrow> distinct found"
    by simp_all
  have new: "JStr url \<notin> set vs" if "url \<in> set found" for url
    using find_links_sound [OF assms(7), of url] that sub by auto
  from process_links_no_final [of _ W k t 0 links] pl
  have nosave: "Save saved \<notin> set evs" for saved
    by fastforce
  have f: "new_jobs_found (main W) = found"
    unfolding m pl by (simp add: finish_list)
  have s: "saved = JArr (vs @ map JStr found)" if "Save saved \<in> set (events (main W))" for saved
    using that nosave [of saved] unfolding m pl by (simp add: finish_list split: if_splits)
  have d: "distinct (vs @ map JStr found)" if "distinct vs" "distinct links"
    using that dist new by (auto simp: distinct_map inj_on_def)
  from s sub new d show ?thesis unfolding f by blast
qed

theorem saved_list_repeats_no_loaded_link_witness:
  "filter is_save (events (main example_world)) = [Save (JArr ([JStr job1] @ map JStr [job2]))]
   \<and> distinct ([JStr job1] @ map JStr [job2])"
proof -
  have w: "GEMINI_API_KEY example_world = Some (lit ''k'')" "lit ''k'' \<noteq> ([]::str)"
    "NTFY_TOPIC example_world = Some (lit ''jobs'')" "lit ''jobs'' \<noteq> ([]::str)"
    "google_search example_world = Inr [href1, href2]"
    and p: "python example_world = ascii_runtime"
    by (simp_all add: example_world_def)
  have l: "find_links (python example_world) (JArr [JStr job1]) [href1, href2] = Inr [job2]"
    by (simp only: p example_links)
  have n: "new_jobs_found (main example_world) = [job2]"
    and e: "filter is_save (events (main example_world)) = [Save (JArr [JStr job1, JStr job2])]"
    by (simp_all add: example_main)
  from saved_list_repeats_no_loaded_link [OF w(1-4) example_load w(5) l] n e
  show ?thesis by simp
qed

end
